theory Spec2Isabelle
  imports Main "HOL-Library.Word"
begin

unbundle bit_operations_syntax

section \<open>Memory model: buffers behind shared pointers\<close>

text \<open>
  A \<open>std::shared_ptr<Buffer>\<close> is an address into a store of cells. A cell holds the
  buffer and the use count of the shared pointer's control block. A null shared pointer
  is \<open>None\<close>.

  C++ undefined behaviour that the code can reach (dereferencing a null pointer, reading
  or writing outside a buffer, taking the writable pointer of a buffer that is not
  mutable) is a \<open>fault\<close>: the left injection of every result.
\<close>

type_synonym byte = "8 word"
type_synonym addr = nat

datatype fault = NullDereference | DanglingPointer | OutOfBounds | NotMutableBuffer

text \<open>
  Modelled from the spec: class \<open>Buffer\<close> (pandas/memory.h) is not among the sources.
  "A byte region with a fixed byte length, mutability flag."
\<close>

record Buffer =
  bytes :: "byte list"
  is_mutable :: bool

record cell =
  buf :: Buffer
  use_count :: nat

type_synonym heap = "cell list"

fun and_then :: "fault + 'a \<Rightarrow> ('a \<Rightarrow> fault + 'b) \<Rightarrow> fault + 'b" where
  "and_then (Inl e) f = Inl e"
| "and_then (Inr x) f = f x"

definition deref :: "heap \<Rightarrow> addr \<Rightarrow> fault + Buffer" where
  "deref h p = (if p < length h then Inr (buf (h ! p)) else Inl DanglingPointer)"

text \<open>\<open>p->\<close> on a shared pointer that may be null.\<close>

definition deref_opt :: "heap \<Rightarrow> addr option \<Rightarrow> fault + Buffer" where
  "deref_opt h p = (case p of None \<Rightarrow> Inl NullDereference | Some q \<Rightarrow> deref h q)"

definition use_count_of :: "heap \<Rightarrow> addr \<Rightarrow> nat" where
  "use_count_of h p = (if p < length h then use_count (h ! p) else 0)"

text \<open>
  Modelled from the spec: class \<open>MutableBuffer\<close> (pandas/memory.h) is not among the
  sources. "Mutable buffers expose a raw writable pointer, immutable buffers do not":
  \<open>static_cast<MutableBuffer*>(p.get())->mutable_data()\<close> gives the writable bytes of a
  mutable buffer, and the cast of a buffer that is not mutable is a fault.
\<close>

definition mutable_data_of :: "heap \<Rightarrow> addr option \<Rightarrow> fault + byte list" where
  "mutable_data_of h p =
     and_then (deref_opt h p)
       (\<lambda>b. if is_mutable b then Inr (bytes b) else Inl NotMutableBuffer)"

text \<open>Writing through the writable pointer: the cell's bytes are replaced.\<close>

definition store :: "heap \<Rightarrow> addr \<Rightarrow> byte list \<Rightarrow> heap" where
  "store h p bs = h[p := (h ! p)\<lparr>buf := (buf (h ! p))\<lparr>bytes := bs\<rparr>\<rparr>]"

text \<open>A new buffer owned by one shared pointer; its address is the next free one.\<close>

definition alloc :: "heap \<Rightarrow> Buffer \<Rightarrow> heap \<times> addr" where
  "alloc h b = (h @ [\<lparr>buf = b, use_count = 1\<rparr>], length h)"

text \<open>A shared pointer to \<open>p\<close> is destroyed or reassigned.\<close>

definition release :: "heap \<Rightarrow> addr \<Rightarrow> heap" where
  "release h p = (if p < length h then h[p := (h ! p)\<lparr>use_count := use_count (h ! p) - 1\<rparr>] else h)"

text \<open>
  Modelled from the spec: \<open>Buffer::Copy\<close> (pandas/memory.h) is not among the sources.
  "\<open>Copy(byteOffset, byteLength) -> Buffer\<close> always allocates fresh owned memory": the
  copy holds the \<open>nbytes\<close> bytes from byte \<open>start\<close> on and is a mutable buffer (it is
  what copy-on-write writes into). Allocation is taken to succeed. A range outside the
  source buffer is an out-of-bounds read.
\<close>

definition Buffer_Copy :: "Buffer \<Rightarrow> int \<Rightarrow> int \<Rightarrow> fault + Buffer" where
  "Buffer_Copy b start nbytes =
     (if 0 \<le> start \<and> 0 \<le> nbytes \<and> start + nbytes \<le> int (length (bytes b))
      then Inr \<lparr>bytes = take (nat nbytes) (drop (nat start) (bytes b)), is_mutable = True\<rparr>
      else Inl OutOfBounds)"

section \<open>Bitmap utilities\<close>

text \<open>
  Modelled from the spec: namespace \<open>BitUtil\<close> and \<open>CopyBitmap\<close> are not among the
  sources. "\<open>GetBit/SetBit/ClearBit/BitNotSet(buffer, bitIndex)\<close>: pure bit manipulation, no
  bounds checking (caller's responsibility)": bit \<open>i\<close> is bit \<open>i mod 8\<close> of byte
  \<open>i div 8\<close>; an index outside the bytes is a fault.
\<close>

definition bit_in_range :: "byte list \<Rightarrow> int \<Rightarrow> bool" where
  "bit_in_range bits i \<longleftrightarrow> 0 \<le> i \<and> nat (i div 8) < length bits"

definition GetBit :: "byte list \<Rightarrow> int \<Rightarrow> fault + bool" where
  "GetBit bits i =
     (if bit_in_range bits i then Inr (bit (bits ! nat (i div 8)) (nat (i mod 8)))
      else Inl OutOfBounds)"

definition BitNotSet :: "byte list \<Rightarrow> int \<Rightarrow> fault + bool" where
  "BitNotSet bits i =
     (if bit_in_range bits i then Inr (\<not> bit (bits ! nat (i div 8)) (nat (i mod 8)))
      else Inl OutOfBounds)"

definition SetBit :: "byte list \<Rightarrow> int \<Rightarrow> fault + byte list" where
  "SetBit bits i =
     (if bit_in_range bits i
      then Inr (bits[nat (i div 8) := set_bit (nat (i mod 8)) (bits ! nat (i div 8))])
      else Inl OutOfBounds)"

definition ClearBit :: "byte list \<Rightarrow> int \<Rightarrow> fault + byte list" where
  "ClearBit bits i =
     (if bit_in_range bits i
      then Inr (bits[nat (i div 8) := unset_bit (nat (i mod 8)) (bits ! nat (i div 8))])
      else Inl OutOfBounds)"

section \<open>Element types\<close>

text \<open>
  Modelled from the spec: the type classes (pandas/type.h) are not among the sources.
  They are the type parameter \<open>TYPE\<close> of the array templates, here for the ten
  instantiations at the end of numeric.h ("8/16/32/64-bit signed/unsigned integers,
  32/64-bit floats"); \<open>c_type\<close> is the fixed-width integer or floating type of the name,
  so \<open>sizeof\<close> and \<open>std::numeric_limits<c_type>::max()\<close> are the standard ones.
\<close>

datatype DataType =
    UInt8Type | Int8Type | UInt16Type | Int16Type
  | UInt32Type | Int32Type | UInt64Type | Int64Type
  | FloatType | DoubleType

fun sizeof_c_type :: "DataType \<Rightarrow> nat" where
  "sizeof_c_type UInt8Type = 1"
| "sizeof_c_type Int8Type = 1"
| "sizeof_c_type UInt16Type = 2"
| "sizeof_c_type Int16Type = 2"
| "sizeof_c_type UInt32Type = 4"
| "sizeof_c_type Int32Type = 4"
| "sizeof_c_type UInt64Type = 8"
| "sizeof_c_type Int64Type = 8"
| "sizeof_c_type FloatType = 4"
| "sizeof_c_type DoubleType = 8"

fun is_integer :: "DataType \<Rightarrow> bool" where
  "is_integer FloatType = False"
| "is_integer DoubleType = False"
| "is_integer _ = True"

fun is_signed :: "DataType \<Rightarrow> bool" where
  "is_signed UInt8Type = False"
| "is_signed UInt16Type = False"
| "is_signed UInt32Type = False"
| "is_signed UInt64Type = False"
| "is_signed _ = True"

text \<open>
  The largest finite values of the two floating types are whole numbers:
  \<open>FLT_MAX = (2^24 - 1) * 2^104\<close> and \<open>DBL_MAX = (2^53 - 1) * 2^971\<close>.
\<close>

definition FLT_MAX :: int where
  "FLT_MAX = (2 ^ 24 - 1) * 2 ^ 104"

definition DBL_MAX :: int where
  "DBL_MAX = (2 ^ 53 - 1) * 2 ^ 971"

definition numeric_limits_max :: "DataType \<Rightarrow> int" where
  "numeric_limits_max ty =
     (if ty = FloatType then FLT_MAX
      else if ty = DoubleType then DBL_MAX
      else if is_signed ty then 2 ^ (8 * sizeof_c_type ty - 1) - 1
      else 2 ^ (8 * sizeof_c_type ty) - 1)"

text \<open>
  An element in memory: \<open>sizeof(c_type)\<close> bytes, least significant first, two's
  complement for the signed types. Storing a value into an element converts it to the
  element type, which keeps it modulo \<open>2 ^ (8 * sizeof(c_type))\<close>.
\<close>

fun le_decode :: "byte list \<Rightarrow> nat" where
  "le_decode [] = 0"
| "le_decode (b # bs) = unat b + 256 * le_decode bs"

fun le_encode :: "nat \<Rightarrow> int \<Rightarrow> byte list" where
  "le_encode 0 v = []"
| "le_encode (Suc n) v = word_of_int v # le_encode n (v div 256)"

definition decode :: "DataType \<Rightarrow> byte list \<Rightarrow> int" where
  "decode ty bs =
     (let u = int (le_decode bs) in
      if is_signed ty \<and> 2 ^ (8 * sizeof_c_type ty - 1) \<le> u
      then u - 2 ^ (8 * sizeof_c_type ty) else u)"

definition encode :: "DataType \<Rightarrow> int \<Rightarrow> byte list" where
  "encode ty v = le_encode (sizeof_c_type ty) v"

text \<open>\<open>p[idx]\<close> for a typed pointer \<open>p\<close> to the first byte of a buffer.\<close>

definition elem_in_range :: "DataType \<Rightarrow> byte list \<Rightarrow> int \<Rightarrow> bool" where
  "elem_in_range ty bs idx \<longleftrightarrow>
     0 \<le> idx \<and> (idx + 1) * int (sizeof_c_type ty) \<le> int (length bs)"

definition read_elem :: "DataType \<Rightarrow> byte list \<Rightarrow> int \<Rightarrow> fault + int" where
  "read_elem ty bs idx =
     (if elem_in_range ty bs idx
      then Inr (decode ty (take (sizeof_c_type ty) (drop (nat idx * sizeof_c_type ty) bs)))
      else Inl OutOfBounds)"

definition write_elem :: "DataType \<Rightarrow> byte list \<Rightarrow> int \<Rightarrow> int \<Rightarrow> fault + byte list" where
  "write_elem ty bs idx v =
     (if elem_in_range ty bs idx
      then Inr (take (nat idx * sizeof_c_type ty) bs @ encode ty v
                @ drop ((nat idx + 1) * sizeof_c_type ty) bs)
      else Inl OutOfBounds)"

section \<open>Python scalars\<close>

text \<open>
  The external scalar of \<open>GetItem\<close>/\<open>SetItem\<close>: the null token \<open>py::NA\<close>, a Python
  integer, or an object that \<open>PyNumber_Long\<close> cannot convert.
\<close>

datatype PyObject = NA | PyLong int | PyNonNumber

text \<open>
  Modelled from the spec: class \<open>Status\<close> is not among the sources. "Success, or a
  failure carrying a human-readable message and a discriminant distinguishing invalid
  operation from not implemented from out of memory." \<open>PythonError\<close> is the failure
  that the macro \<open>RETURN_IF_PYERROR\<close> returns when a Python error is pending.
\<close>

datatype Status = OK | Invalid string | NotImplemented string | OutOfMemory string | PythonError

text \<open>\<open>PyLong_FromLongLong(v)\<close>: the argument is converted to \<open>long long\<close> first.\<close>

definition to_longlong :: "int \<Rightarrow> int" where
  "to_longlong v = (v + 2 ^ 63) mod 2 ^ 64 - 2 ^ 63"

section \<open>NumericArray and IntegerArray\<close>

text \<open>
  The members \<open>type_\<close>, \<open>length_\<close>, \<open>offset_\<close>, \<open>data_\<close> and \<open>valid_bits_\<close> of the
  classes are the fields below; a name cannot end in an underscore here, so each carries
  the suffix \<open>m\<close>. The \<open>int64_t\<close> lengths, offsets and indices are integers.
\<close>

record NumericArray =
  type_m :: DataType
  length_m :: int
  offset_m :: int
  data_m :: addr

record IntegerArray = NumericArray +
  valid_bits_m :: "addr option"

text \<open>The constructors of numeric.cc: the one without a bitmap passes \<open>nullptr\<close>.\<close>

definition IntegerArray_bits ::
  "DataType \<Rightarrow> int \<Rightarrow> addr \<Rightarrow> addr option \<Rightarrow> int \<Rightarrow> IntegerArray" where
  "IntegerArray_bits ty len d vb off =
     \<lparr>type_m = ty, length_m = len, offset_m = off, data_m = d, valid_bits_m = vb\<rparr>"

definition IntegerArray_new :: "DataType \<Rightarrow> int \<Rightarrow> addr \<Rightarrow> int \<Rightarrow> IntegerArray" where
  "IntegerArray_new ty len d off = IntegerArray_bits ty len d None off"

text \<open>\<open>data()[i]\<close> and \<open>mutable_data()[i] = v\<close>: the typed pointer is advanced by the offset.\<close>

definition data_at :: "heap \<Rightarrow> 'a NumericArray_scheme \<Rightarrow> int \<Rightarrow> fault + int" where
  "data_at h a i =
     and_then (deref h (data_m a)) (\<lambda>b. read_elem (type_m a) (bytes b) (offset_m a + i))"

definition mutable_data_set ::
  "heap \<Rightarrow> 'a NumericArray_scheme \<Rightarrow> int \<Rightarrow> int \<Rightarrow> fault + heap" where
  "mutable_data_set h a i v =
     and_then (mutable_data_of h (Some (data_m a)))
       (\<lambda>bs. and_then (write_elem (type_m a) bs (offset_m a + i) v)
          (\<lambda>bs'. Inr (store h (data_m a) bs')))"

text \<open>numeric.h, \<open>IntegerArray::IsNull\<close>, \<open>SetNull\<close> and \<open>SetValid\<close>.\<close>

definition IsNull :: "heap \<Rightarrow> IntegerArray \<Rightarrow> int \<Rightarrow> fault + bool" where
  "IsNull h a i =
     (case valid_bits_m a of
        Some vb \<Rightarrow> and_then (deref h vb) (\<lambda>b. GetBit (bytes b) (offset_m a + i))
      | None \<Rightarrow> Inr False)"

definition SetNull :: "heap \<Rightarrow> IntegerArray \<Rightarrow> int \<Rightarrow> fault + heap" where
  "SetNull h a i =
     and_then (mutable_data_of h (valid_bits_m a))
       (\<lambda>bits. and_then (SetBit bits (offset_m a + i))
          (\<lambda>bits'. Inr (store h (the (valid_bits_m a)) bits')))"

definition SetValid :: "heap \<Rightarrow> IntegerArray \<Rightarrow> int \<Rightarrow> fault + heap" where
  "SetValid h a i =
     and_then (mutable_data_of h (valid_bits_m a))
       (\<lambda>bits. and_then (ClearBit bits (offset_m a + i))
          (\<lambda>bits'. Inr (store h (the (valid_bits_m a)) bits')))"

text \<open>numeric.cc, \<open>IntegerArray::GetItem\<close>: the bitmap is read at \<open>i\<close>, the data at offset plus \<open>i\<close>.\<close>

definition GetItem :: "heap \<Rightarrow> IntegerArray \<Rightarrow> int \<Rightarrow> fault + PyObject" where
  "GetItem h a i =
     and_then
       (case valid_bits_m a of
          Some vb \<Rightarrow> and_then (deref h vb) (\<lambda>b. BitNotSet (bytes b) i)
        | None \<Rightarrow> Inr False)
       (\<lambda>null. if null then Inr NA
          else and_then (data_at h a i) (\<lambda>v. Inr (PyLong (to_longlong v))))"

text \<open>
  Modelled from the spec: \<open>CopyBitmap\<close> is not among the sources. "Allocates a new
  bitmap buffer sized to hold \<open>bitLength\<close> bits and copies the bit range starting at
  \<open>bitOffset\<close>": bit \<open>j\<close> of the copy is bit \<open>bitOffset + j\<close> of the source, in
  \<open>(bitLength + 7) div 8\<close> bytes whose remaining bits are clear.
\<close>

fun byte_of_bits :: "bool list \<Rightarrow> byte" where
  "byte_of_bits [] = 0"
| "byte_of_bits (b # bs) = (if b then 1 else 0) + 2 * byte_of_bits bs"

fun pack_bits :: "bool list \<Rightarrow> byte list" where
  "pack_bits [] = []"
| "pack_bits (b # bs) = byte_of_bits (take 8 (b # bs)) # pack_bits (drop 7 bs)"

definition bit_range :: "byte list \<Rightarrow> int \<Rightarrow> int \<Rightarrow> bool list" where
  "bit_range bits off len =
     map (\<lambda>j. bit (bits ! nat ((off + int j) div 8)) (nat ((off + int j) mod 8))) [0..<nat len]"

definition CopyBitmap :: "heap \<Rightarrow> addr option \<Rightarrow> int \<Rightarrow> int \<Rightarrow> fault + (heap \<times> addr)" where
  "CopyBitmap h src bit_offset len =
     and_then (deref_opt h src)
       (\<lambda>b. if 0 \<le> bit_offset \<and> 0 \<le> len \<and> bit_offset + len \<le> 8 * int (length (bytes b))
            then Inr (alloc h \<lparr>bytes = pack_bits (bit_range (bytes b) bit_offset len),
                               is_mutable = True\<rparr>)
            else Inl OutOfBounds)"

text \<open>numeric.cc, \<open>NumericArray::EnsureMutableAndCheckChange\<close>. The result carries \<open>changed\<close>.\<close>

definition EnsureMutableAndCheckChange ::
  "heap \<Rightarrow> 'a NumericArray_scheme \<Rightarrow> fault + (Status \<times> bool \<times> heap \<times> 'a NumericArray_scheme)" where
  "EnsureMutableAndCheckChange h a =
     (if use_count_of h (data_m a) = 1 then Inr (OK, False, h, a)
      else and_then (deref h (data_m a))
        (\<lambda>b. and_then
           (Buffer_Copy b (offset_m a) (length_m a * int (sizeof_c_type (type_m a))))
           (\<lambda>new_data.
              let (h1, p) = alloc h new_data;
                  h2 = release h1 (data_m a)
              in Inr (OK, True, h2, a\<lparr>data_m := p, offset_m := 0\<rparr>))))"

text \<open>numeric.cc, \<open>IntegerArray::EnsureMutable\<close>.\<close>

definition EnsureMutable :: "heap \<Rightarrow> IntegerArray \<Rightarrow> fault + (Status \<times> heap \<times> IntegerArray)" where
  "EnsureMutable h a =
     and_then (EnsureMutableAndCheckChange h a)
       (\<lambda>(st, changed, h1, a1).
          if st \<noteq> OK then Inr (st, h1, a1)
          else if \<not> changed then Inr (OK, h1, a1)
          else (case valid_bits_m a1 of
                  None \<Rightarrow> Inr (OK, h1, a1)
                | Some vb \<Rightarrow>
                    and_then (CopyBitmap h1 (Some vb) (offset_m a1) (length_m a1))
                      (\<lambda>(h2, new_valid_bits).
                         Inr (OK, release h2 vb, a1\<lparr>valid_bits_m := Some new_valid_bits\<rparr>))))"

text \<open>numeric.h, \<open>IntegerArray::HasNulls\<close>: the loop from index \<open>ii\<close> on.\<close>

function HasNulls_from :: "heap \<Rightarrow> IntegerArray \<Rightarrow> int \<Rightarrow> fault + bool" where
  "HasNulls_from h a ii =
     (if ii < length_m a
      then (case IsNull h a ii of
              Inl e \<Rightarrow> Inl e
            | Inr null \<Rightarrow> if null then Inr True else HasNulls_from h a (ii + 1))
      else Inr False)"
  by pat_completeness auto
termination
  by (relation "measure (\<lambda>(h, a, ii). nat (length_m a - ii))") auto

declare HasNulls_from.simps [simp del]

definition HasNulls :: "heap \<Rightarrow> IntegerArray \<Rightarrow> fault + bool" where
  "HasNulls h a = HasNulls_from h a 0"

text \<open>numeric.h, \<open>IntegerArray::CopyNulls\<close>.\<close>

definition CopyNulls :: "heap \<Rightarrow> IntegerArray \<Rightarrow> int \<Rightarrow> fault + (heap \<times> addr)" where
  "CopyNulls h a len = CopyBitmap h (valid_bits_m a) (offset_m a) len"

text \<open>
  numeric.h, \<open>IntegerArray::operator+=\<close>. The three loops, from index \<open>ii\<close> on. The sum is
  converted to the element type \<open>T\<close> of the left array when it is stored, so it is kept
  modulo \<open>2 ^ (8 * sizeof(T))\<close>; an overflow of the addition itself wraps in the same
  way. The counters of the source are \<open>int\<close>s; they are integers here, so lengths
  beyond \<open>INT_MAX\<close> are not distinguished.
\<close>

function merge_nulls_loop ::
  "heap \<Rightarrow> IntegerArray \<Rightarrow> IntegerArray \<Rightarrow> int \<Rightarrow> int \<Rightarrow> fault + heap" where
  "merge_nulls_loop h a other len ii =
     (if ii < len
      then (case IsNull h a ii of
              Inl e \<Rightarrow> Inl e
            | Inr n1 \<Rightarrow>
                (case (if n1 then Inr True else IsNull h other ii) of
                   Inl e \<Rightarrow> Inl e
                 | Inr n \<Rightarrow>
                     (case (if n then SetNull h a ii else SetValid h a ii) of
                        Inl e \<Rightarrow> Inl e
                      | Inr h' \<Rightarrow> merge_nulls_loop h' a other len (ii + 1))))
      else Inr h)"
  by pat_completeness auto
termination
  by (relation "measure (\<lambda>(h, a, other, len, ii). nat (len - ii))") auto

declare merge_nulls_loop.simps [simp del]

definition add_elem :: "heap \<Rightarrow> IntegerArray \<Rightarrow> IntegerArray \<Rightarrow> int \<Rightarrow> fault + heap" where
  "add_elem h a other ii =
     and_then (data_at h a ii)
       (\<lambda>x. and_then (data_at h other ii)
          (\<lambda>y. mutable_data_set h a ii (x + y)))"

function add_nonnull_loop ::
  "heap \<Rightarrow> IntegerArray \<Rightarrow> IntegerArray \<Rightarrow> int \<Rightarrow> int \<Rightarrow> fault + heap" where
  "add_nonnull_loop h a other len ii =
     (if ii < len
      then (case IsNull h a ii of
              Inl e \<Rightarrow> Inl e
            | Inr null \<Rightarrow>
                (case (if \<not> null then add_elem h a other ii else Inr h) of
                   Inl e \<Rightarrow> Inl e
                 | Inr h' \<Rightarrow> add_nonnull_loop h' a other len (ii + 1)))
      else Inr h)"
  by pat_completeness auto
termination
  by (relation "measure (\<lambda>(h, a, other, len, ii). nat (len - ii))") auto

declare add_nonnull_loop.simps [simp del]

function add_loop ::
  "heap \<Rightarrow> IntegerArray \<Rightarrow> IntegerArray \<Rightarrow> int \<Rightarrow> int \<Rightarrow> fault + heap" where
  "add_loop h a other len ii =
     (if ii < len
      then (case add_elem h a other ii of
              Inl e \<Rightarrow> Inl e
            | Inr h' \<Rightarrow> add_loop h' a other len (ii + 1))
      else Inr h)"
  by pat_completeness auto
termination
  by (relation "measure (\<lambda>(h, a, other, len, ii). nat (len - ii))") auto

declare add_loop.simps [simp del]

text \<open>
  The operator itself. The status of \<open>EnsureMutable\<close> is dropped, as in the source. In
  the branch where only \<open>other\<close> has nulls, the copied bitmap is held by the local
  \<open>new_valid_bits\<close> alone, which is destroyed at the end of the block.
\<close>

definition operator_plus_eq ::
  "heap \<Rightarrow> IntegerArray \<Rightarrow> IntegerArray \<Rightarrow> fault + (heap \<times> IntegerArray)" where
  "operator_plus_eq h this other =
     and_then (EnsureMutable h this)
       (\<lambda>(st, h1, a).
          let len = min (length_m a) (length_m other) in
          and_then (HasNulls h1 a)
            (\<lambda>this_nulls.
               and_then
                 (if this_nulls
                  then and_then (HasNulls h1 other)
                         (\<lambda>other_nulls.
                            if other_nulls then merge_nulls_loop h1 a other len 0 else Inr h1)
                  else and_then (HasNulls h1 other)
                         (\<lambda>other_nulls.
                            if other_nulls
                            then and_then (CopyNulls h1 other len)
                                   (\<lambda>(h', new_valid_bits). Inr (release h' new_valid_bits))
                            else Inr h1))
                 (\<lambda>h2.
                    and_then (mutable_data_of h2 (Some (data_m a)))
                      (\<lambda>this_data.
                         and_then (HasNulls h2 a)
                           (\<lambda>nulls.
                              and_then
                                (if nulls then add_nonnull_loop h2 a other len 0
                                 else add_loop h2 a other len 0)
                                (\<lambda>h3. Inr (h3, a)))))))"

text \<open>
  numeric.cc, \<open>IntegerArray::Copy\<close>. The copied bitmap is held by the local
  \<open>copied_valid_bits\<close> alone; the new array is made by the constructor without a bitmap.
\<close>

definition Copy ::
  "heap \<Rightarrow> IntegerArray \<Rightarrow> int \<Rightarrow> int \<Rightarrow> fault + (Status \<times> heap \<times> IntegerArray)" where
  "Copy h a off len =
     (let itemsize = int (sizeof_c_type (type_m a)) in
      and_then (deref h (data_m a))
        (\<lambda>b. and_then (Buffer_Copy b ((offset_m a + off) * itemsize) (len * itemsize))
           (\<lambda>cb.
              let (h1, copied_data) = alloc h cb in
              and_then
                (case valid_bits_m a of
                   None \<Rightarrow> Inr h1
                 | Some vb \<Rightarrow>
                     and_then (CopyBitmap h1 (Some vb) (offset_m a + off) len)
                       (\<lambda>(h2, copied_valid_bits). Inr (release h2 copied_valid_bits)))
                (\<lambda>h3. Inr (OK, h3, IntegerArray_new (type_m a) len copied_data 0)))))"

section \<open>SetItem\<close>

text \<open>
  numeric.cc, \<open>PyObjectToInt64\<close>: the status, the value written to \<open>out\<close> and
  whether a Python error is left pending. \<open>PyLong_AsLongLong\<close> gives \<open>-1\<close> and raises
  \<open>OverflowError\<close> outside the range of \<open>long long\<close>; the check for a pending error comes
  before it.
\<close>

definition PyObjectToInt64 :: "PyObject \<Rightarrow> Status \<times> int \<times> bool" where
  "PyObjectToInt64 obj =
     (case obj of
        PyLong n \<Rightarrow>
          if - (2 ^ 63) \<le> n \<and> n < 2 ^ 63 then (OK, n, False) else (OK, - 1, True)
      | _ \<Rightarrow> (PythonError, 0, True))"

text \<open>
  Modelled from the spec: \<open>AllocateValidityBitmap\<close> is not among the sources. It gives
  the array a new mutable bitmap for \<open>length\<close> elements; every bit is set (all valid).
\<close>

definition AllocateValidityBitmap :: "heap \<Rightarrow> int \<Rightarrow> Status \<times> heap \<times> addr" where
  "AllocateValidityBitmap h len =
     (let (h1, p) = alloc h \<lparr>bytes = replicate (nat ((len + 7) div 8)) 255, is_mutable = True\<rparr>
      in (OK, h1, p))"

text \<open>
  numeric.cc, \<open>IntegerArray::SetItem\<close>. \<open>valid_bits_->is_mutable()\<close> dereferences the
  bitmap pointer before any test of whether it is null.
\<close>

definition SetItem ::
  "heap \<Rightarrow> IntegerArray \<Rightarrow> int \<Rightarrow> PyObject \<Rightarrow> fault + (Status \<times> heap \<times> IntegerArray)" where
  "SetItem h a i val =
     and_then (deref h (data_m a))
       (\<lambda>d. if \<not> is_mutable d then Inr (Invalid ''Underlying buffer is immutable'', h, a)
          else and_then (deref_opt h (valid_bits_m a))
            (\<lambda>vb. if \<not> is_mutable vb then Inr (Invalid ''Valid bits buffer is immutable'', h, a)
               else if val = NA
               then and_then
                      (if valid_bits_m a = None
                       then (case AllocateValidityBitmap h (length_m a) of
                               (st, h1, p) \<Rightarrow> Inr (st, h1, a\<lparr>valid_bits_m := Some p\<rparr>))
                       else Inr (OK, h, a))
                      (\<lambda>(st, h1, a1).
                         if st \<noteq> OK then Inr (st, h1, a1)
                         else and_then (mutable_data_of h1 (valid_bits_m a1))
                           (\<lambda>mutable_bits. and_then (ClearBit mutable_bits i)
                              (\<lambda>bits'. Inr (OK, store h1 (the (valid_bits_m a1)) bits', a1))))
               else and_then (mutable_data_of h (valid_bits_m a))
                      (\<lambda>mutable_bits.
                         and_then
                           (if valid_bits_m a \<noteq> None
                            then and_then (SetBit mutable_bits i)
                                   (\<lambda>bits'. Inr (store h (the (valid_bits_m a)) bits'))
                            else Inr h)
                           (\<lambda>h1. case PyObjectToInt64 val of
                                   (st, cval, pyerr) \<Rightarrow>
                                     if st \<noteq> OK then Inr (st, h1, a)
                                     else and_then (mutable_data_set h1 a i cval)
                                       (\<lambda>h2. Inr (if pyerr then PythonError else OK, h2, a))))))"

section \<open>Division\<close>

text \<open>
  numeric.h, \<open>IntegerArray::IntegerDivideInteger\<close>. Both maxima are positive, so the
  conversion to the common type of the conditional expression keeps them. The
  comparison with the \<open>float\<close> maximum converts \<open>max_value\<close> to \<open>float\<close>; rounding is
  monotone and \<open>FLT_MAX\<close> is a \<open>float\<close>, so for a value up to \<open>FLT_MAX\<close> the comparison
  of the exact values decides it.
\<close>

definition max_value :: "DataType \<Rightarrow> DataType \<Rightarrow> int" where
  "max_value ty other_ty =
     (if numeric_limits_max ty > numeric_limits_max other_ty
      then numeric_limits_max ty else numeric_limits_max other_ty)"

definition needs_double :: "DataType \<Rightarrow> DataType \<Rightarrow> bool" where
  "needs_double ty other_ty \<longleftrightarrow> max_value ty other_ty > numeric_limits_max FloatType"

definition IntegerDivideInteger :: "DataType \<Rightarrow> DataType \<Rightarrow> DataType" where
  "IntegerDivideInteger ty other_ty =
     (if needs_double ty other_ty then DoubleType else FloatType)"

text \<open>
  Modelled from the spec: \<open>PoolBuffer\<close> is not among the sources. \<open>Resize(n)\<close> makes
  it a mutable buffer of \<open>n\<close> bytes (their content is not initialised; zero here).
\<close>

definition PoolBuffer_Resize :: "int \<Rightarrow> Buffer" where
  "PoolBuffer_Resize n = \<lparr>bytes = replicate (nat n) 0, is_mutable = True\<rparr>"

text \<open>
  numeric.h, \<open>IntegerArray::operator/\<close>, up to the construction of \<open>result\<close>: the new
  buffer and the floating array over it.
\<close>

definition operator_div_result ::
  "heap \<Rightarrow> IntegerArray \<Rightarrow> IntegerArray \<Rightarrow> heap \<times> NumericArray" where
  "operator_div_result h this other =
     (let len = min (length_m this) (length_m other);
          (h1, data) = alloc h (PoolBuffer_Resize len)
      in (h1, \<lparr>type_m = IntegerDivideInteger (type_m this) (type_m other),
                length_m = len, offset_m = 0, data_m = data\<rparr>))"

text \<open>
  The loop of \<open>operator/\<close>. Floating-point arithmetic is not modelled: \<open>quot x y\<close> stands
  for the bytes of \<open>static_cast<CAST_TYPE>(x) / static_cast<CAST_TYPE>(y)\<close>. What the
  model keeps is where each quotient is written.
\<close>

definition write_result ::
  "heap \<Rightarrow> NumericArray \<Rightarrow> int \<Rightarrow> byte list \<Rightarrow> fault + heap" where
  "write_result h r ii raw =
     and_then (mutable_data_of h (Some (data_m r)))
       (\<lambda>bs. if elem_in_range (type_m r) bs (offset_m r + ii)
            then Inr (store h (data_m r)
                   (take (nat (offset_m r + ii) * sizeof_c_type (type_m r)) bs @ raw
                    @ drop ((nat (offset_m r + ii) + 1) * sizeof_c_type (type_m r)) bs))
            else Inl OutOfBounds)"

function div_loop ::
  "(int \<Rightarrow> int \<Rightarrow> byte list) \<Rightarrow> heap \<Rightarrow> IntegerArray \<Rightarrow> IntegerArray \<Rightarrow> NumericArray
   \<Rightarrow> int \<Rightarrow> int \<Rightarrow> fault + heap" where
  "div_loop quot h this other r len ii =
     (if ii < len
      then (case and_then (data_at h this ii)
                   (\<lambda>x. and_then (data_at h other ii)
                      (\<lambda>y. write_result h r ii (quot x y))) of
              Inl e \<Rightarrow> Inl e
            | Inr h' \<Rightarrow> div_loop quot h' this other r len (ii + 1))
      else Inr h)"
  by pat_completeness auto
termination
  by (relation "measure (\<lambda>(quot, h, this, other, r, len, ii). nat (len - ii))") auto

declare div_loop.simps [simp del]

definition operator_div ::
  "(int \<Rightarrow> int \<Rightarrow> byte list) \<Rightarrow> heap \<Rightarrow> IntegerArray \<Rightarrow> IntegerArray
   \<Rightarrow> fault + (heap \<times> NumericArray)" where
  "operator_div quot h this other =
     (let (h1, r) = operator_div_result h this other in
      and_then (div_loop quot h1 this other r (length_m r) 0) (\<lambda>h2. Inr (h2, r)))"

section \<open>ArrayView\<close>

text \<open>
  Modelled from the spec: class \<open>ArrayView\<close> (pandas/array.h) is not among the sources;
  only its tests are. A view is a handle onto one underlying Array with an element
  offset and length; the share-group count of each Array is kept beside the views.
  "\<open>Slice(start)\<close> / \<open>Slice(start, len)\<close> produce a new view over the same underlying
  Array (ref count +1), with \<open>newOffset = thisOffset + start\<close> and
  \<open>newLength = len ?? (thisLength - start)\<close>."
\<close>

record ArrayView =
  view_data :: nat
  view_offset :: int
  view_length :: int

type_synonym ref_counts = "nat \<Rightarrow> nat"

definition ArrayView_new :: "ref_counts \<Rightarrow> nat \<Rightarrow> int \<Rightarrow> ref_counts \<times> ArrayView" where
  "ArrayView_new rc arr len =
     (rc(arr := 1), \<lparr>view_data = arr, view_offset = 0, view_length = len\<rparr>)"

definition ref_count :: "ref_counts \<Rightarrow> ArrayView \<Rightarrow> nat" where
  "ref_count rc v = rc (view_data v)"

definition Slice ::
  "ref_counts \<Rightarrow> ArrayView \<Rightarrow> int \<Rightarrow> int option \<Rightarrow> ref_counts \<times> ArrayView" where
  "Slice rc v start len =
     (rc(view_data v := rc (view_data v) + 1),
      \<lparr>view_data = view_data v,
       view_offset = view_offset v + start,
       view_length = (case len of Some l \<Rightarrow> l | None \<Rightarrow> view_length v - start)\<rparr>)"

section \<open>Values that an element holds\<close>

text \<open>
  The value of \<open>v\<close> after conversion to the element type, and whether the element type
  holds \<open>v\<close> unchanged.
\<close>

definition wrap :: "DataType \<Rightarrow> int \<Rightarrow> int" where
  "wrap ty v =
     (let u = v mod 2 ^ (8 * sizeof_c_type ty) in
      if is_signed ty \<and> 2 ^ (8 * sizeof_c_type ty - 1) \<le> u
      then u - 2 ^ (8 * sizeof_c_type ty) else u)"

definition fits :: "DataType \<Rightarrow> int \<Rightarrow> bool" where
  "fits ty v \<longleftrightarrow>
     (if is_signed ty
      then - (2 ^ (8 * sizeof_c_type ty - 1)) \<le> v \<and> v < 2 ^ (8 * sizeof_c_type ty - 1)
      else 0 \<le> v \<and> v < 2 ^ (8 * sizeof_c_type ty))"

text \<open>
  The store with the use count of one cell set to \<open>k\<close>: the same buffers, held by
  another number of shared pointers.
\<close>

definition with_use_count :: "heap \<Rightarrow> addr \<Rightarrow> nat \<Rightarrow> heap" where
  "with_use_count h p k = (if p < length h then h[p := (h ! p)\<lparr>use_count := k\<rparr>] else h)"

text \<open>
  The invariant of the data model for one array: its elements lie inside its data buffer.
\<close>

definition array_in_buffer :: "heap \<Rightarrow> 'a NumericArray_scheme \<Rightarrow> bool" where
  "array_in_buffer h a =
     (case deref h (data_m a) of
        Inl e \<Rightarrow> False
      | Inr d \<Rightarrow> 0 \<le> offset_m a \<and> 0 \<le> length_m a
          \<and> (offset_m a + length_m a) * int (sizeof_c_type (type_m a)) \<le> int (length (bytes d)))"

section \<open>Concrete arrays used below\<close>

text \<open>
  An \<open>int8\<close> array of one element over the second byte of \<open>[5, 6]\<close> (offset 1), with a
  bitmap whose bit 1 is set and whose bit 0 is clear.
\<close>

definition ex_bits_heap :: heap where
  "ex_bits_heap =
     [\<lparr>buf = \<lparr>bytes = [5, 6], is_mutable = True\<rparr>, use_count = 1\<rparr>,
      \<lparr>buf = \<lparr>bytes = [2], is_mutable = True\<rparr>, use_count = 1\<rparr>]"

definition ex_bits_array :: IntegerArray where
  "ex_bits_array = IntegerArray_bits Int8Type 1 0 (Some 1) 1"

text \<open>
  Two \<open>int8\<close> arrays of length 2: \<open>A = [1, 2]\<close> without a bitmap and \<open>B = [10, 20]\<close>
  with the bitmap byte \<open>1\<close> (bit 0 set, bit 1 clear). Each buffer has one owner.
\<close>

definition ex_add_heap :: heap where
  "ex_add_heap =
     [\<lparr>buf = \<lparr>bytes = [1, 2], is_mutable = True\<rparr>, use_count = 1\<rparr>,
      \<lparr>buf = \<lparr>bytes = [10, 20], is_mutable = True\<rparr>, use_count = 1\<rparr>,
      \<lparr>buf = \<lparr>bytes = [1], is_mutable = True\<rparr>, use_count = 1\<rparr>]"

definition ex_add_A :: IntegerArray where
  "ex_add_A = IntegerArray_new Int8Type 2 0 0"

definition ex_add_B :: IntegerArray where
  "ex_add_B = IntegerArray_bits Int8Type 2 1 (Some 2) 0"

text \<open>A third \<open>int8\<close> array, \<open>[10, 20]\<close> without a bitmap, over the buffer of \<open>B\<close>.\<close>

definition ex_add_C :: IntegerArray where
  "ex_add_C = IntegerArray_new Int8Type 2 1 0"

text \<open>
  An \<open>int16\<close> array of one element, the second of the two elements \<open>1\<close> and \<open>2\<close> of a
  buffer with two owners (offset 1), and an \<open>int16\<close> array \<open>[10]\<close>.
\<close>

definition ex_shared_heap :: heap where
  "ex_shared_heap =
     [\<lparr>buf = \<lparr>bytes = [1, 0, 2, 0], is_mutable = True\<rparr>, use_count = 2\<rparr>,
      \<lparr>buf = \<lparr>bytes = [10, 0], is_mutable = True\<rparr>, use_count = 1\<rparr>]"

definition ex_shared_numeric :: NumericArray where
  "ex_shared_numeric = \<lparr>type_m = Int16Type, length_m = 1, offset_m = 1, data_m = 0\<rparr>"

definition ex_shared_A :: IntegerArray where
  "ex_shared_A = IntegerArray_new Int16Type 1 0 1"

definition ex_shared_B :: IntegerArray where
  "ex_shared_B = IntegerArray_new Int16Type 1 1 0"

text \<open>Two \<open>int64\<close> arrays \<open>[1, 2]\<close>, each over its own buffer of 16 bytes.\<close>

definition ex_div_heap :: heap where
  "ex_div_heap =
     [\<lparr>buf = \<lparr>bytes = [1, 0, 0, 0, 0, 0, 0, 0, 2, 0, 0, 0, 0, 0, 0, 0], is_mutable = True\<rparr>,
       use_count = 1\<rparr>,
      \<lparr>buf = \<lparr>bytes = [1, 0, 0, 0, 0, 0, 0, 0, 2, 0, 0, 0, 0, 0, 0, 0], is_mutable = True\<rparr>,
       use_count = 1\<rparr>]"

definition ex_div_A :: IntegerArray where
  "ex_div_A = IntegerArray_new Int64Type 2 0 0"

definition ex_div_B :: IntegerArray where
  "ex_div_B = IntegerArray_new Int64Type 2 1 0"

text \<open>
  An \<open>int8\<close> array \<open>[5, 6]\<close> with a bitmap: over a mutable data buffer with two owners,
  over an immutable data buffer with one owner, and over an immutable data buffer with two
  owners and an immutable bitmap; then over a mutable data buffer with an immutable bitmap,
  and the store and the array that \<open>EnsureMutable\<close> makes of the third.
\<close>

definition ex_set_array :: IntegerArray where
  "ex_set_array = IntegerArray_bits Int8Type 2 0 (Some 1) 0"

definition ex_set_shared_heap :: heap where
  "ex_set_shared_heap =
     [\<lparr>buf = \<lparr>bytes = [5, 6], is_mutable = True\<rparr>, use_count = 2\<rparr>,
      \<lparr>buf = \<lparr>bytes = [3], is_mutable = True\<rparr>, use_count = 1\<rparr>]"

definition ex_set_immutable_heap :: heap where
  "ex_set_immutable_heap =
     [\<lparr>buf = \<lparr>bytes = [5, 6], is_mutable = False\<rparr>, use_count = 1\<rparr>,
      \<lparr>buf = \<lparr>bytes = [3], is_mutable = True\<rparr>, use_count = 1\<rparr>]"

definition ex_set_frozen_heap :: heap where
  "ex_set_frozen_heap =
     [\<lparr>buf = \<lparr>bytes = [5, 6], is_mutable = False\<rparr>, use_count = 2\<rparr>,
      \<lparr>buf = \<lparr>bytes = [3], is_mutable = False\<rparr>, use_count = 1\<rparr>]"

definition ex_set_frozen_bits_heap :: heap where
  "ex_set_frozen_bits_heap =
     [\<lparr>buf = \<lparr>bytes = [5, 6], is_mutable = True\<rparr>, use_count = 1\<rparr>,
      \<lparr>buf = \<lparr>bytes = [3], is_mutable = False\<rparr>, use_count = 1\<rparr>]"

definition ex_set_detached_heap :: heap where
  "ex_set_detached_heap =
     [\<lparr>buf = \<lparr>bytes = [5, 6], is_mutable = False\<rparr>, use_count = 1\<rparr>,
      \<lparr>buf = \<lparr>bytes = [3], is_mutable = False\<rparr>, use_count = 0\<rparr>,
      \<lparr>buf = \<lparr>bytes = [5, 6], is_mutable = True\<rparr>, use_count = 1\<rparr>,
      \<lparr>buf = \<lparr>bytes = [3], is_mutable = True\<rparr>, use_count = 1\<rparr>]"

definition ex_set_detached_array :: IntegerArray where
  "ex_set_detached_array = IntegerArray_bits Int8Type 2 2 (Some 3) 0"

text \<open>The view of the tests: one Array (number 0) of length 8, in a new share-group.\<close>

definition ex_counts :: ref_counts where
  "ex_counts = fst (ArrayView_new (\<lambda>_. 0) 0 8)"

definition ex_view :: ArrayView where
  "ex_view = snd (ArrayView_new (\<lambda>_. 0) 0 8)"

section \<open>Elements, bits and the store\<close>

lemma length_le_encode [simp]: "length (le_encode n v) = n"
  by (induction n arbitrary: v) auto

lemma le_decode_le_encode: "int (le_decode (le_encode n v)) = v mod 256 ^ n"
proof (induction n arbitrary: v)
  case 0
  then show ?case by simp
next
  case (Suc n)
  have "int (unat (word_of_int v :: byte)) = v mod 256"
    by (simp add: unsigned_of_int take_bit_eq_mod)
  moreover have "v mod (256 * 256 ^ n) = 256 * (v div 256 mod 256 ^ n) + v mod 256"
    by (simp add: zmod_zmult2_eq)
  ultimately show ?case using Suc [of "v div 256"] by simp
qed

lemma length_encode [simp]: "length (encode ty v) = sizeof_c_type ty"
  by (simp add: encode_def)

lemma pow256: "(256::int) ^ n = 2 ^ (8 * n)"
  by (simp add: power_mult)

lemma decode_encode: "decode ty (encode ty v) = wrap ty v"
  by (simp add: decode_def encode_def wrap_def le_decode_le_encode pow256 Let_def)

lemma sizeof_pos [simp]: "0 < sizeof_c_type ty"
  by (cases ty) auto

lemma signed_wrap:
  fixes v M :: int
  assumes "- M \<le> v" "v < M"
  shows "(if M \<le> v mod (2 * M) then v mod (2 * M) - 2 * M else v mod (2 * M)) = v"
proof (cases "0 \<le> v")
  case True
  with assms have "v mod (2 * M) = v" by simp
  with assms show ?thesis by simp
next
  case False
  with assms have "(v + 2 * M) mod (2 * M) = v + 2 * M"
    by (intro mod_pos_pos_trivial) auto
  moreover have "(v + 2 * M) mod (2 * M) = v mod (2 * M)" by simp
  ultimately have "v mod (2 * M) = v + 2 * M" by simp
  with assms show ?thesis by simp
qed

lemma wrap_fits: "fits ty v \<Longrightarrow> wrap ty v = v"
proof (cases "is_signed ty")
  case True
  assume f: "fits ty v"
  have "0 < 8 * sizeof_c_type ty" by simp
  then obtain k where k: "8 * sizeof_c_type ty = Suc k"
    by (auto simp: gr0_conv_Suc)
  from f True k have "- (2 ^ k) \<le> v" "v < 2 ^ k" by (simp_all add: fits_def)
  from signed_wrap [OF this] True k show ?thesis
    by (auto simp: wrap_def Let_def split: if_splits)
next
  case False
  assume "fits ty v"
  with False show ?thesis by (simp add: fits_def wrap_def Let_def)
qed

lemma to_longlong_id: "- (2 ^ 63) \<le> v \<Longrightarrow> v < 2 ^ 63 \<Longrightarrow> to_longlong v = v"
  by (simp add: to_longlong_def)

lemma deref_Inr_iff: "deref h p = Inr b \<longleftrightarrow> p < length h \<and> buf (h ! p) = b"
  by (auto simp: deref_def)

lemma length_store [simp]: "length (store h p bs) = length h"
  by (simp add: store_def)

lemma deref_store_same:
  "deref h p = Inr b \<Longrightarrow> deref (store h p bs) p = Inr (b\<lparr>bytes := bs\<rparr>)"
  by (auto simp: deref_def store_def split: if_splits)

lemma deref_store_other: "p \<noteq> q \<Longrightarrow> deref (store h p bs) q = deref h q"
  by (auto simp: deref_def store_def)

lemma elem_in_range_nat:
  "elem_in_range ty bs idx \<Longrightarrow> (nat idx + 1) * sizeof_c_type ty \<le> length bs"
proof -
  assume r: "elem_in_range ty bs idx"
  then have "0 \<le> idx" and le: "(idx + 1) * int (sizeof_c_type ty) \<le> int (length bs)"
    by (simp_all add: elem_in_range_def)
  then have "int ((nat idx + 1) * sizeof_c_type ty) = (idx + 1) * int (sizeof_c_type ty)"
    by (simp add: algebra_simps)
  with le show ?thesis by linarith
qed

lemma write_elem_Inr:
  "elem_in_range ty bs idx \<Longrightarrow>
   write_elem ty bs idx v =
     Inr (take (nat idx * sizeof_c_type ty) bs @ encode ty v
          @ drop ((nat idx + 1) * sizeof_c_type ty) bs)"
  by (simp add: write_elem_def)

lemma read_after_write:
  assumes "elem_in_range ty bs idx" "write_elem ty bs idx v = Inr bs'"
  shows "length bs' = length bs" and "read_elem ty bs' idx = Inr (wrap ty v)"
proof -
  from elem_in_range_nat [OF assms(1)]
  have le: "nat idx * sizeof_c_type ty + sizeof_c_type ty \<le> length bs" by simp
  from assms have bs': "bs' = take (nat idx * sizeof_c_type ty) bs @ encode ty v
          @ drop ((nat idx + 1) * sizeof_c_type ty) bs"
    by (simp add: write_elem_Inr)
  from le show len: "length bs' = length bs" by (simp add: bs')
  from assms(1) len have "elem_in_range ty bs' idx" by (simp add: elem_in_range_def)
  moreover from le have "take (sizeof_c_type ty) (drop (nat idx * sizeof_c_type ty) bs') = encode ty v"
    by (simp add: bs')
  ultimately show "read_elem ty bs' idx = Inr (wrap ty v)"
    by (simp add: read_elem_def decode_encode)
qed

lemma SetBit_Inr:
  "bit_in_range bits i \<Longrightarrow>
   \<exists>bits'. SetBit bits i = Inr bits' \<and> length bits' = length bits \<and> BitNotSet bits' i = Inr False
       \<and> GetBit bits' i = Inr True"
  by (simp add: SetBit_def BitNotSet_def GetBit_def bit_in_range_def bit_set_bit_iff nat_less_iff)

lemma ClearBit_Inr:
  "bit_in_range bits i \<Longrightarrow>
   \<exists>bits'. ClearBit bits i = Inr bits' \<and> length bits' = length bits \<and> BitNotSet bits' i = Inr True
      \<and> GetBit bits' i = Inr False"
  by (simp add: ClearBit_def BitNotSet_def GetBit_def bit_in_range_def bit_unset_bit_iff)

lemma deref_release [simp]: "deref (release h p) q = deref h q"
  by (auto simp: deref_def release_def nth_list_update)

lemma length_release [simp]: "length (release h p) = length h"
  by (simp add: release_def)

lemma deref_append:
  "deref (h @ [c]) q =
     (if q < length h then deref h q else if q = length h then Inr (buf c) else Inl DanglingPointer)"
  by (auto simp: deref_def nth_append)

lemma length_pack_bits: "length (pack_bits bs) = (length bs + 7) div 8"
proof (induction bs rule: pack_bits.induct)
  case 1
  then show ?case by simp
next
  case (2 b bs)
  then show ?case by (cases "7 \<le> length bs") auto
qed

lemma length_bit_range [simp]: "length (bit_range bits off len) = nat len"
  by (simp add: bit_range_def)

lemma and_then_Inr_iff: "and_then m f = Inr y \<longleftrightarrow> (\<exists>x. m = Inr x \<and> f x = Inr y)"
  by (cases m) auto

lemma read_write_other:
  assumes j: "elem_in_range ty bs j" and k: "elem_in_range ty bs k" and ne: "j \<noteq> k"
    and w: "write_elem ty bs k v = Inr bs'"
  shows "read_elem ty bs' j = read_elem ty bs j"
proof -
  define sz where "sz = sizeof_c_type ty"
  define J where "J = nat j"
  define K where "K = nat k"
  from j k ne have JK: "J \<noteq> K" by (auto simp: J_def K_def elem_in_range_def)
  from elem_in_range_nat [OF k] have kr: "K * sz + sz \<le> length bs"
    by (simp add: K_def sz_def)
  from elem_in_range_nat [OF j] have jr: "J * sz + sz \<le> length bs"
    by (simp add: J_def sz_def)
  from w k have bs': "bs' = take (K * sz) bs @ encode ty v @ drop (K * sz + sz) bs"
    by (simp add: write_elem_Inr K_def sz_def add.commute)
  have len: "length bs' = length bs" using kr by (simp add: bs' sz_def)
  have "take sz (drop (J * sz) bs') = take sz (drop (J * sz) bs)"
  proof (cases "J < K")
    case True
    then have "Suc J \<le> K" by simp
    then have "Suc J * sz \<le> K * sz" by (rule mult_le_mono1)
    then have le: "J * sz + sz \<le> K * sz" by (simp add: add.commute)
    have lenP: "length (take (K * sz) bs) = K * sz" using kr by simp
    from True have le2: "J * sz - K * sz = 0" by simp
    have "drop (J * sz) bs' = drop (J * sz) (take (K * sz) bs) @ encode ty v @ drop (K * sz + sz) bs"
      using le2 lenP by (simp add: bs')
    moreover have "sz \<le> length (drop (J * sz) (take (K * sz) bs))"
      using le lenP by simp
    ultimately have "take sz (drop (J * sz) bs') = take sz (drop (J * sz) (take (K * sz) bs))"
      by simp
    also have "\<dots> = take sz (take (K * sz - J * sz) (drop (J * sz) bs))"
      by (simp add: drop_take)
    also have "\<dots> = take sz (drop (J * sz) bs)"
      using le by (simp add: min_def)
    finally show ?thesis .
  next
    case False
    with JK have "Suc K \<le> J" by simp
    then have "Suc K * sz \<le> J * sz" by (rule mult_le_mono1)
    then have le: "K * sz + sz \<le> J * sz" by (simp add: add.commute)
    then have le1: "K * sz \<le> J * sz" by linarith
    have lenP: "length (take (K * sz) bs) = K * sz" using kr by simp
    have lenE: "length (encode ty v) = sz" by (simp add: sz_def)
    have "drop (J * sz) bs' = drop (J * sz - K * sz) (encode ty v @ drop (K * sz + sz) bs)"
      using le1 lenP by (simp add: bs')
    also have "\<dots> = drop (J * sz - K * sz - sz) (drop (K * sz + sz) bs)"
      using le lenE by simp
    also have "\<dots> = drop (J * sz - K * sz - sz + (K * sz + sz)) bs"
      by (simp only: drop_drop)
    also have "J * sz - K * sz - sz + (K * sz + sz) = J * sz"
      using le by linarith
    finally show ?thesis by simp
  qed
  moreover from j len have "elem_in_range ty bs' j" by (simp add: elem_in_range_def)
  ultimately show ?thesis using j by (simp add: read_elem_def J_def sz_def)
qed

lemma and_then_InrE:
  assumes "and_then m f = Inr y"
  obtains x where "m = Inr x" "f x = Inr y"
  using assms by (cases m) auto

lemma array_in_buffer_elem:
  assumes "array_in_buffer h a" "deref h (data_m a) = Inr d" "0 \<le> i" "i < length_m a"
  shows "elem_in_range (type_m a) (bytes d) (offset_m a + i)"
proof -
  from assms have o: "0 \<le> offset_m a"
    and le: "(offset_m a + length_m a) * int (sizeof_c_type (type_m a)) \<le> int (length (bytes d))"
    by (simp_all add: array_in_buffer_def)
  from assms(4) have "(offset_m a + i + 1) * int (sizeof_c_type (type_m a))
      \<le> (offset_m a + length_m a) * int (sizeof_c_type (type_m a))"
    by (intro mult_right_mono) auto
  with o le assms(3) show ?thesis unfolding elem_in_range_def by linarith
qed

lemma HasNulls_from_no_bitmap: "valid_bits_m a = None \<Longrightarrow> HasNulls_from h a ii = Inr False"
proof (induction h a ii rule: HasNulls_from.induct)
  case (1 h a ii)
  show ?case
  proof (cases "ii < length_m a")
    case True
    have n: "IsNull h a ii = Inr False" using "1.prems" by (simp add: IsNull_def)
    from "1.IH" [OF True n _ "1.prems"] have "HasNulls_from h a (ii + 1) = Inr False" by simp
    with True n show ?thesis by (simp add: HasNulls_from.simps [of h a ii])
  next
    case False
    then show ?thesis by (simp add: HasNulls_from.simps [of h a ii])
  qed
qed

lemma HasNulls_no_bitmap: "valid_bits_m a = None \<Longrightarrow> HasNulls h a = Inr False"
  by (simp add: HasNulls_def HasNulls_from_no_bitmap)

lemma EnsureMutable_unique:
  "use_count_of h (data_m a) = 1 \<Longrightarrow> EnsureMutable h a = Inr (OK, h, a)"
  by (simp add: EnsureMutable_def EnsureMutableAndCheckChange_def)

lemma EnsureMutable_no_bitmap:
  assumes "valid_bits_m a = None" "EnsureMutable h a = Inr (st, h', a')"
  shows "valid_bits_m a' = None"
proof -
  from assms(2) obtain st1 ch h1 a1 where
    c: "EnsureMutableAndCheckChange h a = Inr (st1, ch, h1, a1)"
    by (cases "EnsureMutableAndCheckChange h a") (auto simp: EnsureMutable_def)
  from c assms(1) have v: "valid_bits_m a1 = None"
    by (auto simp: EnsureMutableAndCheckChange_def and_then_Inr_iff alloc_def
      split: if_splits)
  from assms(2) c v show ?thesis
    by (auto simp: EnsureMutable_def split: if_splits)
qed

section \<open>The null convention of the bitmap\<close>

text \<open>
  Claim C1: with a validity bitmap, a clear bit means null and a set bit means valid:
  \<open>IsNull(i)\<close> is true iff bit \<open>offset + i\<close> is clear, \<open>SetNull(i)\<close> clears it,
  \<open>SetValid(i)\<close> sets it and \<open>GetItem(i)\<close> gives the null token iff that bit is clear.

  The code does not do this. In the example, bit \<open>offset + 0 = 1\<close> is set, so the element
  is valid by the convention. \<open>IsNull(0)\<close> reports null; \<open>GetItem(0)\<close>, which reads bit
  0 instead of bit 1, gives the null token; \<open>SetNull(0)\<close> leaves bit 1 set; \<open>SetValid(0)\<close>
  clears it.
\<close>

theorem null_convention_at_example:
  "IsNull ex_bits_heap ex_bits_array 0 = Inr True
   \<and> GetItem ex_bits_heap ex_bits_array 0 = Inr NA
   \<and> and_then (SetNull ex_bits_heap ex_bits_array 0) (\<lambda>h. deref h 1)
       = Inr \<lparr>bytes = [2], is_mutable = True\<rparr>
   \<and> and_then (SetValid ex_bits_heap ex_bits_array 0) (\<lambda>h. deref h 1)
       = Inr \<lparr>bytes = [0], is_mutable = True\<rparr>"
  by code_simp

text \<open>
  For every array, \<open>IsNull\<close>, \<open>SetNull\<close> and \<open>SetValid\<close> agree with each other on
  "set means null": after \<open>SetNull(i)\<close> the element is null for \<open>IsNull\<close>, after
  \<open>SetValid(i)\<close> it is not.
\<close>

lemma SetNull_then_IsNull:
  assumes "SetNull h a i = Inr h'"
  shows "IsNull h' a i = Inr True"
proof -
  from assms obtain bits where b: "mutable_data_of h (valid_bits_m a) = Inr bits"
    by (cases "mutable_data_of h (valid_bits_m a)") (auto simp: SetNull_def)
  then obtain vb bb where vb: "valid_bits_m a = Some vb" and bb: "deref h vb = Inr bb"
    and bits: "bits = bytes bb"
    by (auto simp: mutable_data_of_def deref_opt_def and_then_Inr_iff
        split: option.splits if_splits)
  from assms b obtain bits' where s: "SetBit bits (offset_m a + i) = Inr bits'"
    and h': "h' = store h vb bits'"
    by (cases "SetBit bits (offset_m a + i)") (auto simp: SetNull_def vb)
  from s have r: "bit_in_range bits (offset_m a + i)"
    by (auto simp: SetBit_def split: if_splits)
  from SetBit_Inr [OF r] s have "GetBit bits' (offset_m a + i) = Inr True" by auto
  with vb bb show ?thesis by (simp add: IsNull_def h' deref_store_same)
qed

lemma SetValid_then_IsNull:
  assumes "SetValid h a i = Inr h'"
  shows "IsNull h' a i = Inr False"
proof -
  from assms obtain bits where b: "mutable_data_of h (valid_bits_m a) = Inr bits"
    by (cases "mutable_data_of h (valid_bits_m a)") (auto simp: SetValid_def)
  then obtain vb bb where vb: "valid_bits_m a = Some vb" and bb: "deref h vb = Inr bb"
    and bits: "bits = bytes bb"
    by (auto simp: mutable_data_of_def deref_opt_def and_then_Inr_iff
        split: option.splits if_splits)
  from assms b obtain bits' where s: "ClearBit bits (offset_m a + i) = Inr bits'"
    and h': "h' = store h vb bits'"
    by (cases "ClearBit bits (offset_m a + i)") (auto simp: SetValid_def vb)
  from s have r: "bit_in_range bits (offset_m a + i)"
    by (auto simp: ClearBit_def split: if_splits)
  from ClearBit_Inr [OF r] s have "GetBit bits' (offset_m a + i) = Inr False" by auto
  with vb bb show ?thesis by (simp add: IsNull_def h' deref_store_same)
qed

text \<open>
  \<open>GetItem\<close> (and \<open>SetItem\<close>) read the same bits the other way round: on an array with a
  bitmap and offset 0, \<open>GetItem(i)\<close> gives the null token exactly when \<open>IsNull(i)\<close> is
  false.
\<close>

lemma IsNull_GetItem_disagree:
  assumes "offset_m a = 0" "valid_bits_m a = Some vb" "IsNull h a i = Inr null"
  shows "GetItem h a i = Inr NA \<longleftrightarrow> \<not> null"
proof -
  from assms obtain bb where bb: "deref h vb = Inr bb"
    by (cases "deref h vb") (auto simp: IsNull_def)
  from assms bb have g: "GetBit (bytes bb) i = Inr null" by (simp add: IsNull_def)
  then have n: "BitNotSet (bytes bb) i = Inr (\<not> null)"
    by (auto simp: GetBit_def BitNotSet_def split: if_splits)
  show ?thesis
  proof (cases null)
    case True
    with assms bb n show ?thesis
      by (cases "data_at h a i") (simp_all add: GetItem_def)
  next
    case False
    with assms bb n show ?thesis by (simp add: GetItem_def)
  qed
qed

section \<open>In-place addition\<close>

text \<open>
  Claim C2: when \<open>A\<close> has no nulls and \<open>B\<close> has nulls in the overlap, \<open>A += B\<close> gives
  \<open>A\<close> a bitmap copy of the nulls of \<open>B\<close>, so every position where \<open>B\<close> was null is
  null in the result.

  The code copies the bitmap into a local and drops it. In the example \<open>B\<close> is null at
  0 (for \<open>IsNull\<close>); after \<open>A += B\<close> the array \<open>A\<close> still has no bitmap, is not null
  at 0 and holds the sums \<open>11\<close> and \<open>22\<close>.
\<close>

theorem plus_eq_drops_nulls_of_other:
  "HasNulls ex_add_heap ex_add_A = Inr False
   \<and> IsNull ex_add_heap ex_add_B 0 = Inr True
   \<and> and_then (operator_plus_eq ex_add_heap ex_add_A ex_add_B)
        (\<lambda>(h, a). Inr (valid_bits_m a)) = Inr None
   \<and> and_then (operator_plus_eq ex_add_heap ex_add_A ex_add_B)
        (\<lambda>(h, a). IsNull h a 0) = Inr False
   \<and> and_then (operator_plus_eq ex_add_heap ex_add_A ex_add_B)
        (\<lambda>(h, a). GetItem h a 0) = Inr (PyLong 11)
   \<and> and_then (operator_plus_eq ex_add_heap ex_add_A ex_add_B)
        (\<lambda>(h, a). GetItem h a 1) = Inr (PyLong 22)"
  by code_simp

text \<open>
  No array without a bitmap ever gets one from \<open>+=\<close>: the array after the operation is
  the array that \<open>EnsureMutable\<close> left.
\<close>

lemma plus_eq_array:
  assumes "operator_plus_eq h a other = Inr (h', a')"
  obtains st h1 where "EnsureMutable h a = Inr (st, h1, a')"
proof -
  from assms obtain st h1 a1 where em: "EnsureMutable h a = Inr (st, h1, a1)"
    by (cases "EnsureMutable h a") (auto simp: operator_plus_eq_def)
  from assms have "a' = a1"
    unfolding operator_plus_eq_def em Let_def and_then.simps prod.case
    by (elim and_then_InrE) simp
  with em that show thesis by simp
qed

lemma plus_eq_never_adds_bitmap:
  assumes "valid_bits_m a = None" "operator_plus_eq h a other = Inr (h', a')"
  shows "valid_bits_m a' = None \<and> IsNull h' a' i = Inr False"
proof -
  from assms(2) obtain st h1 where "EnsureMutable h a = Inr (st, h1, a')"
    by (rule plus_eq_array)
  with assms(1) have "valid_bits_m a' = None" by (rule EnsureMutable_no_bitmap)
  then show ?thesis by (simp add: IsNull_def)
qed

text \<open>
  Claim C7: for \<open>A\<close> and \<open>B\<close> without nulls and of equal length \<open>n\<close>, \<open>A += B\<close> gives
  \<open>result[i] = A_old[i] + B_old[i]\<close> for every \<open>i < n\<close>.

  It does not when \<open>A\<close> shares its buffer at a non-zero offset: the copy made by
  \<open>EnsureMutable\<close> starts at byte \<open>offset_\<close>, not at byte \<open>offset_ * sizeof(T)\<close>. In the
  example \<open>A = [2]\<close> and \<open>B = [10]\<close>; the result is \<open>[522]\<close>, not \<open>[12]\<close>.
\<close>

theorem plus_eq_on_shared_offset_array:
  "data_at ex_shared_heap ex_shared_A 0 = Inr 2
   \<and> data_at ex_shared_heap ex_shared_B 0 = Inr 10
   \<and> HasNulls ex_shared_heap ex_shared_A = Inr False
   \<and> HasNulls ex_shared_heap ex_shared_B = Inr False
   \<and> and_then (operator_plus_eq ex_shared_heap ex_shared_A ex_shared_B)
        (\<lambda>(h, a). data_at h a 0) = Inr 522"
  by code_simp

text \<open>
  The loop itself is right. From index \<open>ii\<close> on it replaces each element of the left
  array below \<open>n\<close> by the sum, converted to the element type, and changes nothing else.
\<close>

lemma add_loop_sums:
  assumes "data_m a \<noteq> data_m b"
    and "deref h (data_m b) = Inr db"
    and "deref h (data_m a) = Inr d" and "is_mutable d"
    and "\<forall>j. ii \<le> j \<and> j < n \<longrightarrow> elem_in_range (type_m a) (bytes d) (offset_m a + j)"
    and "\<forall>j. ii \<le> j \<and> j < n \<longrightarrow> elem_in_range (type_m b) (bytes db) (offset_m b + j)"
  shows "\<exists>h' d'. add_loop h a b n ii = Inr h' \<and> deref h' (data_m a) = Inr d' \<and> is_mutable d'
      \<and> length (bytes d') = length (bytes d)
      \<and> (\<forall>p. p \<noteq> data_m a \<longrightarrow> deref h' p = deref h p)
      \<and> (\<forall>j. elem_in_range (type_m a) (bytes d) (offset_m a + j) \<longrightarrow>
           read_elem (type_m a) (bytes d') (offset_m a + j) =
             (if ii \<le> j \<and> j < n
              then and_then (read_elem (type_m a) (bytes d) (offset_m a + j))
                     (\<lambda>x. and_then (read_elem (type_m b) (bytes db) (offset_m b + j))
                        (\<lambda>y. Inr (wrap (type_m a) (x + y))))
              else read_elem (type_m a) (bytes d) (offset_m a + j)))"
  using assms
proof (induction h a b n ii arbitrary: d rule: add_loop.induct)
  case (1 h a other len ii)
  note ne = "1.prems"(1) and db = "1.prems"(2) and d = "1.prems"(3) and m = "1.prems"(4)
    and ra = "1.prems"(5) and rb = "1.prems"(6)
  show ?case
  proof (cases "ii < len")
    case False
    then have "add_loop h a other len ii = Inr h"
      by (simp add: add_loop.simps [of h a other len ii])
    with d m False show ?thesis by auto
  next
    case True
    let ?ty = "type_m a"
    from ra True have ea: "elem_in_range ?ty (bytes d) (offset_m a + ii)" by simp
    from rb True have eb: "elem_in_range (type_m other) (bytes db) (offset_m other + ii)" by simp
    obtain x where x: "read_elem ?ty (bytes d) (offset_m a + ii) = Inr x"
      using ea by (simp add: read_elem_def)
    obtain y where y: "read_elem (type_m other) (bytes db) (offset_m other + ii) = Inr y"
      using eb by (simp add: read_elem_def)
    obtain bs1 where w: "write_elem ?ty (bytes d) (offset_m a + ii) (x + y) = Inr bs1"
      using ea by (simp add: write_elem_Inr)
    define h1 where "h1 = store h (data_m a) bs1"
    define d1 where "d1 = d\<lparr>bytes := bs1\<rparr>"
    have ae: "add_elem h a other ii = Inr h1"
      using d m db x y w
      by (simp add: add_elem_def data_at_def mutable_data_set_def mutable_data_of_def
          deref_opt_def h1_def)
    have len1: "length (bytes d1) = length (bytes d)"
      using read_after_write(1) [OF ea w] by (simp add: d1_def)
    have d1: "deref h1 (data_m a) = Inr d1"
      using d by (simp add: h1_def d1_def deref_store_same)
    have m1: "is_mutable d1" using m by (simp add: d1_def)
    have frame1: "p \<noteq> data_m a \<Longrightarrow> deref h1 p = deref h p" for p
      by (simp add: h1_def deref_store_other)
    have db1: "deref h1 (data_m other) = Inr db"
      using db ne frame1 [of "data_m other"] by simp
    have range_eq: "elem_in_range ?ty (bytes d1) k = elem_in_range ?ty (bytes d) k" for k
      by (simp add: elem_in_range_def len1)
    have ra1: "\<forall>j. ii + 1 \<le> j \<and> j < len \<longrightarrow> elem_in_range ?ty (bytes d1) (offset_m a + j)"
      using ra by (simp add: range_eq)
    have rb1: "\<forall>j. ii + 1 \<le> j \<and> j < len \<longrightarrow>
        elem_in_range (type_m other) (bytes db) (offset_m other + j)"
      using rb by simp
    from "1.IH" [OF True ae ne db1 d1 m1 ra1 rb1]
    obtain h' d' where loop: "add_loop h1 a other len (ii + 1) = Inr h'"
      and d': "deref h' (data_m a) = Inr d'" and m': "is_mutable d'"
      and len': "length (bytes d') = length (bytes d1)"
      and frame': "\<forall>p. p \<noteq> data_m a \<longrightarrow> deref h' p = deref h1 p"
      and reads: "\<forall>j. elem_in_range ?ty (bytes d1) (offset_m a + j) \<longrightarrow>
           read_elem ?ty (bytes d') (offset_m a + j) =
             (if ii + 1 \<le> j \<and> j < len
              then and_then (read_elem ?ty (bytes d1) (offset_m a + j))
                     (\<lambda>x. and_then (read_elem (type_m other) (bytes db) (offset_m other + j))
                        (\<lambda>y. Inr (wrap ?ty (x + y))))
              else read_elem ?ty (bytes d1) (offset_m a + j))"
      by blast
    have step: "add_loop h a other len ii = Inr h'"
      using True ae loop by (simp add: add_loop.simps [of h a other len ii])
    have other1: "read_elem ?ty (bytes d1) (offset_m a + j) = read_elem ?ty (bytes d) (offset_m a + j)"
      if "elem_in_range ?ty (bytes d) (offset_m a + j)" "j \<noteq> ii" for j
      using read_write_other [OF that(1) ea _ w] that(2) by (simp add: d1_def)
    have same1: "read_elem ?ty (bytes d1) (offset_m a + ii) = Inr (wrap ?ty (x + y))"
      using read_after_write(2) [OF ea w] by (simp add: d1_def)
    have "read_elem ?ty (bytes d') (offset_m a + j) =
             (if ii \<le> j \<and> j < len
              then and_then (read_elem ?ty (bytes d) (offset_m a + j))
                     (\<lambda>x. and_then (read_elem (type_m other) (bytes db) (offset_m other + j))
                        (\<lambda>y. Inr (wrap ?ty (x + y))))
              else read_elem ?ty (bytes d) (offset_m a + j))"
      if r: "elem_in_range ?ty (bytes d) (offset_m a + j)" for j
    proof (cases "j = ii")
      case True
      with reads r same1 x y \<open>ii < len\<close> show ?thesis by (simp add: range_eq)
    next
      case False
      with reads r other1 [OF r] show ?thesis by (simp add: range_eq)
    qed
    with step d' m' len' len1 frame' frame1 show ?thesis by auto
  qed
qed

text \<open>
  So \<open>A += B\<close> is right when no copy is made (X1): for arrays without bitmaps that lie inside
  their buffers, \<open>A\<close> the one owner of a mutable buffer that is not the buffer of \<open>B\<close>,
  each of the first \<open>min(len(A), len(B))\<close> elements of \<open>A\<close> becomes the sum, converted to
  the element type of \<open>A\<close>; the other elements of \<open>A\<close> and every other buffer are unchanged.
\<close>

theorem plus_eq_exclusive_sums:
  assumes na: "valid_bits_m a = None" and nb: "valid_bits_m b = None"
    and u: "use_count_of h (data_m a) = 1" and ne: "data_m a \<noteq> data_m b"
    and d: "deref h (data_m a) = Inr d" and m: "is_mutable d"
    and wa: "array_in_buffer h a" and wb: "array_in_buffer h b"
  shows "\<exists>h'. operator_plus_eq h a b = Inr (h', a)
     \<and> (\<forall>p. p \<noteq> data_m a \<longrightarrow> deref h' p = deref h p)
     \<and> (\<forall>i. 0 \<le> i \<and> i < length_m a \<longrightarrow>
          data_at h' a i =
            (if i < length_m b
             then and_then (data_at h a i)
                    (\<lambda>x. and_then (data_at h b i) (\<lambda>y. Inr (wrap (type_m a) (x + y))))
             else data_at h a i))"
proof -
  define n where "n = min (length_m a) (length_m b)"
  obtain db where db: "deref h (data_m b) = Inr db"
    using wb by (cases "deref h (data_m b)") (auto simp: array_in_buffer_def)
  have ra: "\<forall>j. 0 \<le> j \<and> j < n \<longrightarrow> elem_in_range (type_m a) (bytes d) (offset_m a + j)"
    using array_in_buffer_elem [OF wa d] by (simp add: n_def)
  have rb: "\<forall>j. 0 \<le> j \<and> j < n \<longrightarrow> elem_in_range (type_m b) (bytes db) (offset_m b + j)"
    using array_in_buffer_elem [OF wb db] by (simp add: n_def)
  from add_loop_sums [OF ne db d m ra rb]
  obtain h' d' where loop: "add_loop h a b n 0 = Inr h'"
    and d': "deref h' (data_m a) = Inr d'"
    and frame: "\<forall>p. p \<noteq> data_m a \<longrightarrow> deref h' p = deref h p"
    and reads: "\<forall>j. elem_in_range (type_m a) (bytes d) (offset_m a + j) \<longrightarrow>
           read_elem (type_m a) (bytes d') (offset_m a + j) =
             (if 0 \<le> j \<and> j < n
              then and_then (read_elem (type_m a) (bytes d) (offset_m a + j))
                     (\<lambda>x. and_then (read_elem (type_m b) (bytes db) (offset_m b + j))
                        (\<lambda>y. Inr (wrap (type_m a) (x + y))))
              else read_elem (type_m a) (bytes d) (offset_m a + j))"
    by blast
  have op: "operator_plus_eq h a b = Inr (h', a)"
    using loop d m
    by (simp add: operator_plus_eq_def EnsureMutable_unique [OF u] HasNulls_no_bitmap [OF na]
        HasNulls_no_bitmap [OF nb] mutable_data_of_def deref_opt_def n_def [symmetric])
  have "data_at h' a i =
            (if i < length_m b
             then and_then (data_at h a i)
                    (\<lambda>x. and_then (data_at h b i) (\<lambda>y. Inr (wrap (type_m a) (x + y))))
             else data_at h a i)"
    if i: "0 \<le> i" "i < length_m a" for i
    using reads array_in_buffer_elem [OF wa d i] i d d' db
    by (simp add: data_at_def n_def)
  with op frame show ?thesis by blast
qed

theorem plus_eq_exclusive_sums_witness:
  "valid_bits_m ex_add_A = None \<and> valid_bits_m ex_add_C = None
   \<and> use_count_of ex_add_heap (data_m ex_add_A) = 1
   \<and> data_m ex_add_A \<noteq> data_m ex_add_C
   \<and> deref ex_add_heap (data_m ex_add_A) = Inr \<lparr>bytes = [1, 2], is_mutable = True\<rparr>
   \<and> is_mutable \<lparr>bytes = [1, 2], is_mutable = True\<rparr>
   \<and> array_in_buffer ex_add_heap ex_add_A \<and> array_in_buffer ex_add_heap ex_add_C
   \<and> and_then (operator_plus_eq ex_add_heap ex_add_A ex_add_C)
        (\<lambda>(h, a). and_then (data_at h a 0) (\<lambda>x. and_then (data_at h a 1) (\<lambda>y. Inr (a, x, y))))
       = Inr (ex_add_A, 11, 22)"
proof -
  have 1: "valid_bits_m ex_add_A = None" by code_simp
  have 2: "valid_bits_m ex_add_C = None" by code_simp
  have 3: "use_count_of ex_add_heap (data_m ex_add_A) = 1" by code_simp
  have 4: "data_m ex_add_A \<noteq> data_m ex_add_C" by code_simp
  have 5: "deref ex_add_heap (data_m ex_add_A) = Inr \<lparr>bytes = [1, 2], is_mutable = True\<rparr>"
    by code_simp
  have 6: "is_mutable \<lparr>bytes = [1, 2], is_mutable = True\<rparr>" by simp
  have 7: "array_in_buffer ex_add_heap ex_add_A" by code_simp
  have 8: "array_in_buffer ex_add_heap ex_add_C" by code_simp
  from plus_eq_exclusive_sums [OF 1 2 3 4 5 6 7 8]
  obtain h' where op: "operator_plus_eq ex_add_heap ex_add_A ex_add_C = Inr (h', ex_add_A)"
    and r: "\<forall>i. 0 \<le> i \<and> i < length_m ex_add_A \<longrightarrow>
          data_at h' ex_add_A i =
            (if i < length_m ex_add_C
             then and_then (data_at ex_add_heap ex_add_A i)
                    (\<lambda>x. and_then (data_at ex_add_heap ex_add_C i)
                       (\<lambda>y. Inr (wrap (type_m ex_add_A) (x + y))))
             else data_at ex_add_heap ex_add_A i)"
    by blast
  have l: "length_m ex_add_A = 2" "length_m ex_add_C = 2" by code_simp+
  have v0: "and_then (data_at ex_add_heap ex_add_A 0)
                    (\<lambda>x. and_then (data_at ex_add_heap ex_add_C 0)
                       (\<lambda>y. Inr (wrap (type_m ex_add_A) (x + y)))) = Inr 11" by code_simp
  have v1: "and_then (data_at ex_add_heap ex_add_A 1)
                    (\<lambda>x. and_then (data_at ex_add_heap ex_add_C 1)
                       (\<lambda>y. Inr (wrap (type_m ex_add_A) (x + y)))) = Inr 22" by code_simp
  from r [rule_format, of 0] l v0 have r0: "data_at h' ex_add_A 0 = Inr 11" by simp
  from r [rule_format, of 1] l v1 have r1: "data_at h' ex_add_A 1 = Inr 22" by simp
  from 1 2 3 4 5 6 7 8 op r0 r1 show ?thesis by simp
qed

section \<open>Copy\<close>

text \<open>
  Claim C3: \<open>Copy(o, l)\<close> of an array with a bitmap duplicates the data range and the
  bitmap range: the copy is null at \<open>i\<close> iff the source is null at \<open>o + i\<close>.

  The code copies the bitmap into a local and builds the new array without it. In the
  example the source is null at 0 for \<open>IsNull\<close> and null at 1 for \<open>GetItem\<close>; the copy
  has no bitmap and is null nowhere.
\<close>

theorem copy_drops_bitmap:
  "IsNull ex_add_heap ex_add_B 0 = Inr True
   \<and> GetItem ex_add_heap ex_add_B 1 = Inr NA
   \<and> and_then (Copy ex_add_heap ex_add_B 0 2) (\<lambda>(st, h, c). Inr (st, valid_bits_m c))
       = Inr (OK, None)
   \<and> and_then (Copy ex_add_heap ex_add_B 0 2) (\<lambda>(st, h, c). IsNull h c 0) = Inr False
   \<and> and_then (Copy ex_add_heap ex_add_B 0 2) (\<lambda>(st, h, c). GetItem h c 1)
       = Inr (PyLong 20)"
  by code_simp

text \<open>The same for every array: the result of \<open>Copy\<close> has no bitmap.\<close>

lemma Copy_result:
  assumes "Copy h a off len = Inr (st, h', c)"
  shows "st = OK \<and> c = IntegerArray_new (type_m a) len (length h) 0"
proof -
  obtain b where b: "deref h (data_m a) = Inr b"
    using assms by (cases "deref h (data_m a)") (auto simp: Copy_def Let_def)
  obtain cb where cb: "Buffer_Copy b ((offset_m a + off) * int (sizeof_c_type (type_m a)))
      (len * int (sizeof_c_type (type_m a))) = Inr cb"
    using assms b
    by (cases "Buffer_Copy b ((offset_m a + off) * int (sizeof_c_type (type_m a)))
      (len * int (sizeof_c_type (type_m a)))") (auto simp: Copy_def Let_def)
  from assms b cb show ?thesis
    by (auto simp: Copy_def Let_def alloc_def and_then_Inr_iff split: option.splits)
qed

lemma Copy_has_no_bitmap:
  "Copy h a off len = Inr (st, h', c) \<Longrightarrow> valid_bits_m c = None \<and> IsNull h' c i = Inr False"
  by (drule Copy_result) (simp add: IntegerArray_new_def IntegerArray_bits_def IsNull_def)

text \<open>
  The data range is duplicated (X4): the result of \<open>Copy(off, len)\<close> has length
  \<open>len\<close> and offset 0 over a new buffer that it alone owns, element \<open>i\<close> of the copy
  is element \<open>off + i\<close> of the source, and every buffer that existed before reads as it
  did.
\<close>

lemma take_drop_take:
  assumes "j + k \<le> n"
  shows "take k (drop j (take n (drop s xs))) = take k (drop (s + j) xs)"
proof -
  have "drop j (take n (drop s xs)) = take (n - j) (drop (s + j) xs)"
    by (simp add: drop_take add.commute)
  then show ?thesis using assms by (simp add: min_def)
qed

theorem Copy_duplicates_data:
  assumes c: "Copy h a off len = Inr (st, h', c)" and i: "0 \<le> i" "i < len"
  shows "st = OK \<and> length_m c = len \<and> offset_m c = 0 \<and> data_m c = length h
     \<and> use_count_of h' (data_m c) = 1
     \<and> (\<forall>p < length h. deref h' p = deref h p)
     \<and> data_at h' c i = data_at h a (off + i)"
proof -
  define sz where "sz = sizeof_c_type (type_m a)"
  have szp: "0 < sz" by (simp add: sz_def)
  obtain b where b: "deref h (data_m a) = Inr b"
    using c by (cases "deref h (data_m a)") (auto simp: Copy_def Let_def)
  obtain cb where cb: "Buffer_Copy b ((offset_m a + off) * int sz) (len * int sz) = Inr cb"
    using c b
    by (cases "Buffer_Copy b ((offset_m a + off) * int sz) (len * int sz)")
      (auto simp: Copy_def Let_def sz_def)
  from cb have s0: "0 \<le> (offset_m a + off) * int sz"
    and le: "(offset_m a + off) * int sz + len * int sz \<le> int (length (bytes b))"
    and cbb: "bytes cb = take (nat (len * int sz)) (drop (nat ((offset_m a + off) * int sz)) (bytes b))"
    by (auto simp: Buffer_Copy_def split: if_splits)
  from s0 szp have o: "0 \<le> offset_m a + off" by (simp add: zero_le_mult_iff)
  define h1 where "h1 = h @ [\<lparr>buf = cb, use_count = 1\<rparr>]"
  from Copy_result [OF c] have r: "st = OK" "c = IntegerArray_new (type_m a) len (length h) 0"
    by simp_all
  have h': "h' = h1 \<or> (\<exists>vb nbits. valid_bits_m a = Some vb
      \<and> h' = release (h1 @ [\<lparr>buf = nbits, use_count = 1\<rparr>]) (length h1))"
    using c b cb
    by (auto simp: Copy_def Let_def sz_def alloc_def and_then_Inr_iff CopyBitmap_def h1_def
        split: option.splits if_splits)
  have l1: "length h1 = Suc (length h)" by (simp add: h1_def)
  from h' have dn: "deref h' (length h) = Inr cb"
    by (auto simp: deref_append l1) (simp_all add: h1_def deref_append)
  from h' have frame: "\<forall>p < length h. deref h' p = deref h p"
    by (auto simp: deref_append l1) (simp_all add: h1_def deref_append)
  from h' have uc: "use_count_of h' (length h) = 1"
    by (auto simp: use_count_of_def release_def l1 nth_append nth_list_update)
       (simp_all add: h1_def nth_append)
  have lencb: "int (length (bytes cb)) = len * int sz"
    using le s0 i by (simp add: cbb)
  have "(i + 1) * int sz \<le> len * int sz" using i by (intro mult_right_mono) auto
  with lencb i have in_c: "elem_in_range (type_m a) (bytes cb) i"
    by (simp add: elem_in_range_def sz_def)
  have "(offset_m a + off + i + 1) * int sz \<le> (offset_m a + off) * int sz + len * int sz"
    using \<open>(i + 1) * int sz \<le> len * int sz\<close> by (simp add: algebra_simps)
  with le o i have in_a: "elem_in_range (type_m a) (bytes b) (offset_m a + (off + i))"
    unfolding elem_in_range_def sz_def by (simp add: add.assoc)
  have n1: "nat ((offset_m a + off) * int sz) = nat (offset_m a + off) * sz"
    using o by (simp add: nat_mult_distrib)
  have n2: "nat (len * int sz) = nat len * sz"
    using i by (simp add: nat_mult_distrib)
  have n3: "nat (offset_m a + (off + i)) * sz = nat (offset_m a + off) * sz + nat i * sz"
    using o i by (simp add: nat_add_distrib add.assoc [symmetric] distrib_right)
  have "Suc (nat i) \<le> nat len" using i by simp
  then have "Suc (nat i) * sz \<le> nat len * sz" by (rule mult_le_mono1)
  then have n4: "nat i * sz + sz \<le> nat len * sz" by (simp add: add.commute)
  have "take sz (drop (nat i * sz) (bytes cb))
      = take sz (drop (nat (offset_m a + (off + i)) * sz) (bytes b))"
    unfolding cbb n1 n2 n3 by (rule take_drop_take [OF n4])
  with in_c in_a have "read_elem (type_m a) (bytes cb) i
      = read_elem (type_m a) (bytes b) (offset_m a + (off + i))"
    by (simp add: read_elem_def sz_def)
  with dn b have "data_at h' c i = data_at h a (off + i)"
    by (simp add: data_at_def r IntegerArray_new_def IntegerArray_bits_def)
  with r dn frame uc show ?thesis
    by (simp add: IntegerArray_new_def IntegerArray_bits_def)
qed

theorem Copy_duplicates_data_witness:
  "Copy ex_add_heap ex_add_B 1 1
     = Inr (OK,
            [\<lparr>buf = \<lparr>bytes = [1, 2], is_mutable = True\<rparr>, use_count = 1\<rparr>,
             \<lparr>buf = \<lparr>bytes = [10, 20], is_mutable = True\<rparr>, use_count = 1\<rparr>,
             \<lparr>buf = \<lparr>bytes = [1], is_mutable = True\<rparr>, use_count = 1\<rparr>,
             \<lparr>buf = \<lparr>bytes = [20], is_mutable = True\<rparr>, use_count = 1\<rparr>,
             \<lparr>buf = \<lparr>bytes = [0], is_mutable = True\<rparr>, use_count = 0\<rparr>],
            IntegerArray_new Int8Type 1 3 0)
   \<and> (0::int) \<le> 0 \<and> (0::int) < 1
   \<and> data_at [\<lparr>buf = \<lparr>bytes = [1, 2], is_mutable = True\<rparr>, use_count = 1\<rparr>,
             \<lparr>buf = \<lparr>bytes = [10, 20], is_mutable = True\<rparr>, use_count = 1\<rparr>,
             \<lparr>buf = \<lparr>bytes = [1], is_mutable = True\<rparr>, use_count = 1\<rparr>,
             \<lparr>buf = \<lparr>bytes = [20], is_mutable = True\<rparr>, use_count = 1\<rparr>,
             \<lparr>buf = \<lparr>bytes = [0], is_mutable = True\<rparr>, use_count = 0\<rparr>]
        (IntegerArray_new Int8Type 1 3 0) 0
       = data_at ex_add_heap ex_add_B (1 + 0)"
proof -
  have 1: "Copy ex_add_heap ex_add_B 1 1
     = Inr (OK,
            [\<lparr>buf = \<lparr>bytes = [1, 2], is_mutable = True\<rparr>, use_count = 1\<rparr>,
             \<lparr>buf = \<lparr>bytes = [10, 20], is_mutable = True\<rparr>, use_count = 1\<rparr>,
             \<lparr>buf = \<lparr>bytes = [1], is_mutable = True\<rparr>, use_count = 1\<rparr>,
             \<lparr>buf = \<lparr>bytes = [20], is_mutable = True\<rparr>, use_count = 1\<rparr>,
             \<lparr>buf = \<lparr>bytes = [0], is_mutable = True\<rparr>, use_count = 0\<rparr>],
            IntegerArray_new Int8Type 1 3 0)"
    by code_simp
  have 2: "(0::int) \<le> 0" "(0::int) < 1" by simp_all
  from Copy_duplicates_data [OF 1 2] 1 2 show ?thesis by blast
qed

section \<open>Copy-on-write\<close>

text \<open>
  Claim C4: \<open>EnsureMutableAndCheckChange\<close> does nothing and reports \<open>changed = false\<close>
  when the use count of the data buffer is 1; otherwise it copies the
  \<open>length_ * sizeof(T)\<close> bytes from byte \<open>offset_ * sizeof(T)\<close> on into a new buffer, binds
  the array to it with offset 0 and reports \<open>changed = true\<close>.

  The copy starts at byte \<open>offset_\<close>. In the example the visible element is \<open>2\<close> (bytes 2
  and 3); the new buffer holds bytes 1 and 2, and the element reads \<open>512\<close>.
\<close>

theorem ensure_mutable_copies_from_byte_offset:
  "data_at ex_shared_heap ex_shared_numeric 0 = Inr 2
   \<and> EnsureMutableAndCheckChange ex_shared_heap ex_shared_numeric
       = Inr (OK, True,
              [\<lparr>buf = \<lparr>bytes = [1, 0, 2, 0], is_mutable = True\<rparr>, use_count = 1\<rparr>,
               \<lparr>buf = \<lparr>bytes = [10, 0], is_mutable = True\<rparr>, use_count = 1\<rparr>,
               \<lparr>buf = \<lparr>bytes = [0, 2], is_mutable = True\<rparr>, use_count = 1\<rparr>],
              \<lparr>type_m = Int16Type, length_m = 1, offset_m = 0, data_m = 2\<rparr>)
   \<and> and_then (EnsureMutableAndCheckChange ex_shared_heap ex_shared_numeric)
        (\<lambda>(st, changed, h, a). data_at h a 0) = Inr 512"
  by code_simp

text \<open>
  What holds of the claim: with one owner nothing happens; otherwise the array is bound,
  at offset 0, to a new mutable buffer, and no buffer that existed before is changed. The
  new buffer holds \<open>length_ * sizeof(T)\<close> bytes, from byte \<open>offset_\<close> of the old one on.
\<close>

lemma EnsureMutableAndCheckChange_unique:
  "use_count_of h (data_m a) = 1 \<Longrightarrow> EnsureMutableAndCheckChange h a = Inr (OK, False, h, a)"
  by (simp add: EnsureMutableAndCheckChange_def)

lemma EnsureMutableAndCheckChange_shared:
  assumes "use_count_of h (data_m a) \<noteq> 1"
    and "EnsureMutableAndCheckChange h a = Inr (st, changed, h', a')"
  shows "st = OK \<and> changed \<and> a' = a\<lparr>data_m := length h, offset_m := 0\<rparr>
    \<and> (\<exists>b. deref h (data_m a) = Inr b
          \<and> deref h' (length h)
              = Inr \<lparr>bytes = take (nat (length_m a * int (sizeof_c_type (type_m a))))
                                (drop (nat (offset_m a)) (bytes b)),
                      is_mutable = True\<rparr>)
    \<and> (\<forall>p < length h. deref h' p = deref h p)"
proof -
  obtain b where b: "deref h (data_m a) = Inr b"
    using assms by (cases "deref h (data_m a)") (auto simp: EnsureMutableAndCheckChange_def)
  obtain nb where nb:
    "Buffer_Copy b (offset_m a) (length_m a * int (sizeof_c_type (type_m a))) = Inr nb"
    using assms b
    by (cases "Buffer_Copy b (offset_m a) (length_m a * int (sizeof_c_type (type_m a)))")
      (auto simp: EnsureMutableAndCheckChange_def)
  from nb have nb': "nb = \<lparr>bytes = take (nat (length_m a * int (sizeof_c_type (type_m a))))
                                (drop (nat (offset_m a)) (bytes b)), is_mutable = True\<rparr>"
    by (auto simp: Buffer_Copy_def split: if_splits)
  from assms b nb have r: "st = OK" "changed"
    "h' = release (h @ [\<lparr>buf = nb, use_count = 1\<rparr>]) (data_m a)"
    "a' = a\<lparr>data_m := length h, offset_m := 0\<rparr>"
    by (simp_all add: EnsureMutableAndCheckChange_def alloc_def)
  have "deref h' (length h) = Inr nb" by (simp add: r deref_append)
  moreover have "\<forall>p < length h. deref h' p = deref h p" by (simp add: r deref_append)
  ultimately show ?thesis using r b nb' by simp
qed

text \<open>
  Copy-on-write detaches and nothing more (X2): with one owner
  \<open>EnsureMutableAndCheckChange\<close> changes nothing and reports \<open>changed = false\<close>;
  otherwise it reports \<open>changed = true\<close> and binds the array, at offset 0 and with its
  length, to a new buffer that it alone owns, and every buffer that existed before reads
  as it did.
\<close>

theorem EnsureMutableAndCheckChange_detaches:
  "(use_count_of h (data_m a) = 1 \<longrightarrow>
      EnsureMutableAndCheckChange h a = Inr (OK, False, h, a))
   \<and> (use_count_of h (data_m a) \<noteq> 1
        \<and> EnsureMutableAndCheckChange h a = Inr (st, changed, h', a') \<longrightarrow>
      st = OK \<and> changed \<and> offset_m a' = 0 \<and> length_m a' = length_m a
      \<and> data_m a' = length h \<and> use_count_of h' (data_m a') = 1
      \<and> (\<forall>p < length h. deref h' p = deref h p))"
proof (intro conjI impI)
  assume "use_count_of h (data_m a) = 1"
  then show "EnsureMutableAndCheckChange h a = Inr (OK, False, h, a)"
    by (rule EnsureMutableAndCheckChange_unique)
next
  assume asm: "use_count_of h (data_m a) \<noteq> 1
        \<and> EnsureMutableAndCheckChange h a = Inr (st, changed, h', a')"
  then have sh: "use_count_of h (data_m a) \<noteq> 1"
    and em: "EnsureMutableAndCheckChange h a = Inr (st, changed, h', a')" by simp_all
  note S = EnsureMutableAndCheckChange_shared [OF sh em]
  from S show "st = OK" "changed" by simp_all
  from S have a': "a' = a\<lparr>data_m := length h, offset_m := 0\<rparr>" by simp
  then show "offset_m a' = 0" "length_m a' = length_m a" "data_m a' = length h" by simp_all
  from S show "\<forall>p < length h. deref h' p = deref h p" by simp
  obtain b where b: "deref h (data_m a) = Inr b" using S by blast
  then have lt: "data_m a < length h" by (simp add: deref_Inr_iff)
  obtain nb where nb:
    "Buffer_Copy b (offset_m a) (length_m a * int (sizeof_c_type (type_m a))) = Inr nb"
    using em sh b
    by (cases "Buffer_Copy b (offset_m a) (length_m a * int (sizeof_c_type (type_m a)))")
      (auto simp: EnsureMutableAndCheckChange_def)
  from em sh b nb have "h' = release (h @ [\<lparr>buf = nb, use_count = 1\<rparr>]) (data_m a)"
    by (simp add: EnsureMutableAndCheckChange_def alloc_def)
  with lt show "use_count_of h' (data_m a') = 1"
    by (simp add: a' use_count_of_def release_def nth_append)
qed

theorem EnsureMutableAndCheckChange_detaches_witness:
  "use_count_of ex_shared_heap (data_m ex_shared_numeric) \<noteq> 1
   \<and> EnsureMutableAndCheckChange ex_shared_heap ex_shared_numeric
       = Inr (OK, True,
              [\<lparr>buf = \<lparr>bytes = [1, 0, 2, 0], is_mutable = True\<rparr>, use_count = 1\<rparr>,
               \<lparr>buf = \<lparr>bytes = [10, 0], is_mutable = True\<rparr>, use_count = 1\<rparr>,
               \<lparr>buf = \<lparr>bytes = [0, 2], is_mutable = True\<rparr>, use_count = 1\<rparr>],
              \<lparr>type_m = Int16Type, length_m = 1, offset_m = 0, data_m = 2\<rparr>)
   \<and> offset_m \<lparr>type_m = Int16Type, length_m = 1, offset_m = 0, data_m = 2\<rparr> = 0
   \<and> data_m \<lparr>type_m = Int16Type, length_m = 1, offset_m = 0, data_m = 2\<rparr>
       = length ex_shared_heap
   \<and> deref [\<lparr>buf = \<lparr>bytes = [1, 0, 2, 0], is_mutable = True\<rparr>, use_count = 1\<rparr>,
             \<lparr>buf = \<lparr>bytes = [10, 0], is_mutable = True\<rparr>, use_count = 1\<rparr>,
             \<lparr>buf = \<lparr>bytes = [0, 2], is_mutable = True\<rparr>, use_count = 1\<rparr>] 0
       = deref ex_shared_heap 0"
proof -
  have 1: "use_count_of ex_shared_heap (data_m ex_shared_numeric) \<noteq> 1" by code_simp
  have 2: "EnsureMutableAndCheckChange ex_shared_heap ex_shared_numeric
       = Inr (OK, True,
              [\<lparr>buf = \<lparr>bytes = [1, 0, 2, 0], is_mutable = True\<rparr>, use_count = 1\<rparr>,
               \<lparr>buf = \<lparr>bytes = [10, 0], is_mutable = True\<rparr>, use_count = 1\<rparr>,
               \<lparr>buf = \<lparr>bytes = [0, 2], is_mutable = True\<rparr>, use_count = 1\<rparr>],
              \<lparr>type_m = Int16Type, length_m = 1, offset_m = 0, data_m = 2\<rparr>)"
    by code_simp
  have 3: "(0::nat) < length ex_shared_heap" by code_simp
  note T = EnsureMutableAndCheckChange_detaches [where h = ex_shared_heap
      and a = ex_shared_numeric, THEN conjunct2, rule_format, OF conjI [OF 1 2]]
  from T have "offset_m \<lparr>type_m = Int16Type, length_m = 1, offset_m = 0, data_m = 2\<rparr> = 0"
    by (elim conjE)
  moreover from T have "data_m \<lparr>type_m = Int16Type, length_m = 1, offset_m = 0, data_m = 2\<rparr>
       = length ex_shared_heap" by (elim conjE)
  moreover from T 3 have "deref [\<lparr>buf = \<lparr>bytes = [1, 0, 2, 0], is_mutable = True\<rparr>, use_count = 1\<rparr>,
             \<lparr>buf = \<lparr>bytes = [10, 0], is_mutable = True\<rparr>, use_count = 1\<rparr>,
             \<lparr>buf = \<lparr>bytes = [0, 2], is_mutable = True\<rparr>, use_count = 1\<rparr>] 0
       = deref ex_shared_heap 0" by blast
  ultimately show ?thesis using 1 2 by blast
qed

section \<open>Division\<close>

text \<open>
  Claim C5: the division yields a double-precision array whenever the larger static
  maximum of the two integer types would not fit in single precision, otherwise a
  single-precision one; in particular two \<open>int64\<close> arrays always give a double-precision
  result.

  The code compares the larger maximum with the largest finite \<open>float\<close>, about
  \<open>3.4e38\<close>. For two \<open>int64\<close> arrays the larger maximum is \<open>2^63 - 1\<close>, \<open>needs_double\<close> is
  false and the result is a single-precision array.
\<close>

theorem int64_division_is_single_precision:
  "max_value Int64Type Int64Type = 2 ^ 63 - 1
   \<and> \<not> needs_double Int64Type Int64Type
   \<and> IntegerDivideInteger Int64Type Int64Type = FloatType
   \<and> type_m (snd (operator_div_result ex_div_heap ex_div_A ex_div_B)) = FloatType"
  by (simp add: IntegerDivideInteger_def needs_double_def max_value_def
      numeric_limits_max_def FLT_MAX_def operator_div_result_def alloc_def Let_def
      ex_div_A_def ex_div_B_def IntegerArray_new_def IntegerArray_bits_def)

text \<open>
  The same for every pair of integer types: no maximum exceeds the largest finite
  \<open>float\<close>, so the double-precision arm of the choice is never taken.
\<close>

lemma IntegerDivideInteger_never_double:
  assumes "is_integer ty" "is_integer other_ty"
  shows "\<not> needs_double ty other_ty \<and> IntegerDivideInteger ty other_ty = FloatType"
proof -
  have small: "is_integer t \<Longrightarrow> numeric_limits_max t \<le> FLT_MAX" for t
    by (cases t) (simp_all add: numeric_limits_max_def FLT_MAX_def)
  have "numeric_limits_max FloatType = FLT_MAX" by (simp add: numeric_limits_max_def)
  with small [OF assms(1)] small [OF assms(2)] show ?thesis
    by (simp add: IntegerDivideInteger_def needs_double_def max_value_def)
qed

text \<open>
  Claim C8: the floating array returned by the division over \<open>n\<close> elements owns a buffer
  of at least \<open>n * sizeof(result element)\<close> bytes.

  The buffer is resized to \<open>n\<close> bytes. In the example \<open>n = 2\<close>: the result has two
  single-precision elements over a buffer of 2 bytes, and the first write of the loop is
  outside these 2 bytes.
\<close>

theorem division_buffer_too_small:
  "(case operator_div_result ex_div_heap ex_div_A ex_div_B of
      (h, r) \<Rightarrow> (type_m r, length_m r, offset_m r, and_then (deref h (data_m r)) (\<lambda>b. Inr (length (bytes b)))))
     = (FloatType, 2, 0, Inr 2)
   \<and> sizeof_c_type FloatType = 4
   \<and> operator_div (\<lambda>x y. [0, 0, 0, 0]) ex_div_heap ex_div_A ex_div_B = Inl OutOfBounds"
  by code_simp

text \<open>The same for every pair of arrays: the buffer has as many bytes as the result has elements.\<close>

lemma operator_div_result_size:
  "operator_div_result h a b = (h', r) \<Longrightarrow>
   length_m r = min (length_m a) (length_m b) \<and> offset_m r = 0
   \<and> (\<exists>d. deref h' (data_m r) = Inr d \<and> length (bytes d) = nat (length_m r))"
  by (auto simp: operator_div_result_def Let_def alloc_def PoolBuffer_Resize_def deref_append)

section \<open>SetItem\<close>

text \<open>
  Claim C10: \<open>SetItem\<close> dereferences the bitmap pointer before it tests whether the
  bitmap exists, so on an array made by the constructor without a bitmap no call reaches
  the assignment of the value: it returns at the test of the data buffer, or it
  dereferences the null pointer.
\<close>

theorem SetItem_without_bitmap:
  "SetItem h (IntegerArray_new ty len d off) i val =
     (case deref h d of
        Inl e \<Rightarrow> Inl e
      | Inr b \<Rightarrow>
          if is_mutable b then Inl NullDereference
          else Inr (Invalid ''Underlying buffer is immutable'', h, IntegerArray_new ty len d off))"
  by (simp add: SetItem_def IntegerArray_new_def IntegerArray_bits_def deref_opt_def
      split: sum.splits)

text \<open>What \<open>EnsureMutable\<close> leaves behind when it copies an array with a bitmap.\<close>

lemma EnsureMutable_shared:
  assumes sh: "use_count_of h (data_m a) \<noteq> 1" and vb: "valid_bits_m a = Some vb"
    and em: "EnsureMutable h a = Inr (st, h1, a1)"
  shows "st = OK \<and> 0 \<le> length_m a
    \<and> a1 = a\<lparr>data_m := length h, offset_m := 0, valid_bits_m := Some (Suc (length h))\<rparr>
    \<and> (\<exists>d. deref h1 (length h) = Inr d \<and> is_mutable d
           \<and> int (length (bytes d)) = length_m a * int (sizeof_c_type (type_m a)))
    \<and> (\<exists>bb. deref h1 (Suc (length h)) = Inr bb \<and> is_mutable bb
           \<and> length (bytes bb) = nat ((length_m a + 7) div 8))"
proof -
  obtain b where b: "deref h (data_m a) = Inr b"
    using em sh by (cases "deref h (data_m a)")
      (auto simp: EnsureMutable_def EnsureMutableAndCheckChange_def)
  obtain nb where nb: "Buffer_Copy b (offset_m a) (length_m a * int (sizeof_c_type (type_m a))) = Inr nb"
    using em sh b
    by (cases "Buffer_Copy b (offset_m a) (length_m a * int (sizeof_c_type (type_m a)))")
      (auto simp: EnsureMutable_def EnsureMutableAndCheckChange_def)
  from nb have nbm: "is_mutable nb"
    and nbl: "int (length (bytes nb)) = length_m a * int (sizeof_c_type (type_m a))"
    by (auto simp: Buffer_Copy_def split: if_splits)
  define h' where "h' = release (h @ [\<lparr>buf = nb, use_count = 1\<rparr>]) (data_m a)"
  define a' where "a' = a\<lparr>data_m := length h, offset_m := 0\<rparr>"
  have cc: "EnsureMutableAndCheckChange h a = Inr (OK, True, h', a')"
    using sh b nb by (simp add: EnsureMutableAndCheckChange_def alloc_def h'_def a'_def)
  have em': "EnsureMutable h a =
      and_then (CopyBitmap h' (Some vb) 0 (length_m a))
        (\<lambda>(h2, new_valid_bits). Inr (OK, release h2 vb, a'\<lparr>valid_bits_m := Some new_valid_bits\<rparr>))"
    using vb by (simp add: EnsureMutable_def cc a'_def)
  obtain bb where bb: "deref h' vb = Inr bb"
    using em by (cases "deref h' vb") (auto simp: em' CopyBitmap_def deref_opt_def)
  have rng: "0 \<le> length_m a \<and> length_m a \<le> 8 * int (length (bytes bb))"
    using em bb by (auto simp: em' CopyBitmap_def deref_opt_def split: if_splits)
  define nbits where "nbits = \<lparr>bytes = pack_bits (bit_range (bytes bb) 0 (length_m a)), is_mutable = True\<rparr>"
  have res: "st = OK" "h1 = release (h' @ [\<lparr>buf = nbits, use_count = 1\<rparr>]) vb"
    "a1 = a'\<lparr>valid_bits_m := Some (length h')\<rparr>"
    using em bb rng by (auto simp: em' CopyBitmap_def deref_opt_def alloc_def nbits_def)
  have lh': "length h' = Suc (length h)" by (simp add: h'_def)
  have "deref h1 (length h) = Inr nb"
    by (simp add: res deref_append lh') (simp add: h'_def deref_append)
  moreover have "deref h1 (Suc (length h)) = Inr nbits"
    by (simp add: res deref_append lh')
  moreover have "length (bytes nbits) = nat ((length_m a + 7) div 8)"
    using rng by (simp add: nbits_def length_pack_bits)
  moreover have "is_mutable nbits" by (simp add: nbits_def)
  ultimately show ?thesis using res rng nbm nbl by (simp add: a'_def lh')
qed

text \<open>A \<open>SetItem\<close> on mutable buffers that hold the index is seen by \<open>GetItem\<close>.\<close>

lemma SetItem_then_GetItem:
  assumes d: "deref h (data_m a) = Inr d" and md: "is_mutable d"
    and vb: "valid_bits_m a = Some vb" and ne: "vb \<noteq> data_m a"
    and bb: "deref h vb = Inr bb" and mb: "is_mutable bb"
    and bi: "bit_in_range (bytes bb) i"
    and ei: "elem_in_range (type_m a) (bytes d) (offset_m a + i)"
    and val: "val = NA \<or> (\<exists>n. val = PyLong n \<and> fits (type_m a) n \<and> - (2 ^ 63) \<le> n \<and> n < 2 ^ 63)"
  shows "\<exists>h2. SetItem h a i val = Inr (OK, h2, a) \<and> GetItem h2 a i = Inr val"
  using val
proof
  assume na: "val = NA"
  from ClearBit_Inr [OF bi] obtain bits' where
    c: "ClearBit (bytes bb) i = Inr bits'" and n: "BitNotSet bits' i = Inr True" by blast
  have "SetItem h a i val = Inr (OK, store h vb bits', a)"
    using d md vb bb mb c na
    by (simp add: SetItem_def deref_opt_def mutable_data_of_def)
  moreover have "GetItem (store h vb bits') a i = Inr NA"
    using vb n deref_store_same [OF bb, of bits']
    by (simp add: GetItem_def)
  ultimately show ?thesis using na by simp
next
  assume "\<exists>n. val = PyLong n \<and> fits (type_m a) n \<and> - (2 ^ 63) \<le> n \<and> n < 2 ^ 63"
  then obtain n where v: "val = PyLong n" and f: "fits (type_m a) n"
    and lo: "- (2 ^ 63) \<le> n" and hi: "n < 2 ^ 63" by blast
  from SetBit_Inr [OF bi] obtain bits' where
    s: "SetBit (bytes bb) i = Inr bits'" and n: "BitNotSet bits' i = Inr False" by blast
  define h1 where "h1 = store h vb bits'"
  have d1: "deref h1 (data_m a) = Inr d"
    using d ne by (simp add: h1_def deref_store_other)
  have b1: "deref h1 vb = Inr (bb\<lparr>bytes := bits'\<rparr>)"
    using bb by (simp add: h1_def deref_store_same)
  obtain bs' where w: "write_elem (type_m a) (bytes d) (offset_m a + i) n = Inr bs'"
    using ei by (simp add: write_elem_Inr)
  define h2 where "h2 = store h1 (data_m a) bs'"
  have set: "SetItem h a i val = Inr (OK, h2, a)"
    using d md vb bb mb s v lo hi d1 w
    by (simp add: SetItem_def deref_opt_def mutable_data_of_def PyObjectToInt64_def
        mutable_data_set_def h1_def [symmetric] h2_def)
  have d2: "deref h2 (data_m a) = Inr (d\<lparr>bytes := bs'\<rparr>)"
    using d1 by (simp add: h2_def deref_store_same)
  have b2: "deref h2 vb = Inr (bb\<lparr>bytes := bits'\<rparr>)"
    using b1 ne by (simp add: h2_def deref_store_other)
  have "GetItem h2 a i = Inr (PyLong (to_longlong (wrap (type_m a) n)))"
    using vb b2 n d2 read_after_write(2) [OF ei w]
    by (simp add: GetItem_def data_at_def)
  with set v f lo hi show ?thesis
    by (simp add: wrap_fits to_longlong_id)
qed

text \<open>
  A stored value is observable (X3): on an array whose data buffer and bitmap buffer
  are distinct mutable buffers that hold index \<open>i\<close>, \<open>SetItem(i, val)\<close> with the
  null token, or with an integer that \<open>long long\<close> holds and the element type holds,
  succeeds, leaves the array as it is, and \<open>GetItem(i)\<close> then gives \<open>val\<close>.
\<close>

theorem SetItem_value_observable:
  assumes "deref h (data_m a) = Inr d" and "is_mutable d"
    and "valid_bits_m a = Some vb" and "vb \<noteq> data_m a"
    and "deref h vb = Inr bb" and "is_mutable bb"
    and "bit_in_range (bytes bb) i"
    and "elem_in_range (type_m a) (bytes d) (offset_m a + i)"
    and "val = NA \<or> val = PyLong n \<and> fits (type_m a) n \<and> - (2 ^ 63) \<le> n \<and> n < 2 ^ 63"
  shows "and_then (SetItem h a i val)
           (\<lambda>(st, h2, a2). and_then (GetItem h2 a2 i) (\<lambda>v. Inr (st, a2, v)))
         = Inr (OK, a, val)"
proof -
  have val: "val = NA \<or> (\<exists>n. val = PyLong n \<and> fits (type_m a) n \<and> - (2 ^ 63) \<le> n \<and> n < 2 ^ 63)"
    using assms(9) by auto
  from SetItem_then_GetItem [OF assms(1-8) val]
  obtain h2 where "SetItem h a i val = Inr (OK, h2, a)" "GetItem h2 a i = Inr val"
    by blast
  then show ?thesis by simp
qed

theorem SetItem_value_observable_witness:
  "deref ex_bits_heap (data_m ex_bits_array) = Inr \<lparr>bytes = [5, 6], is_mutable = True\<rparr>
   \<and> is_mutable \<lparr>bytes = [5, 6], is_mutable = True\<rparr>
   \<and> valid_bits_m ex_bits_array = Some 1 \<and> 1 \<noteq> data_m ex_bits_array
   \<and> deref ex_bits_heap 1 = Inr \<lparr>bytes = [2], is_mutable = True\<rparr>
   \<and> is_mutable \<lparr>bytes = [2], is_mutable = True\<rparr>
   \<and> bit_in_range (bytes \<lparr>bytes = [2], is_mutable = True\<rparr>) 0
   \<and> elem_in_range (type_m ex_bits_array) (bytes \<lparr>bytes = [5, 6], is_mutable = True\<rparr>)
        (offset_m ex_bits_array + 0)
   \<and> fits (type_m ex_bits_array) 7 \<and> - (2 ^ 63) \<le> (7::int) \<and> (7::int) < 2 ^ 63
   \<and> and_then (SetItem ex_bits_heap ex_bits_array 0 (PyLong 7))
        (\<lambda>(st, h2, a2). and_then (GetItem h2 a2 0) (\<lambda>v. Inr (st, a2, v)))
       = Inr (OK, ex_bits_array, PyLong 7)"
proof -
  have 1: "deref ex_bits_heap (data_m ex_bits_array) = Inr \<lparr>bytes = [5, 6], is_mutable = True\<rparr>"
    by code_simp
  have 2: "is_mutable \<lparr>bytes = [5, 6], is_mutable = True\<rparr>" by simp
  have 3: "valid_bits_m ex_bits_array = Some 1" by code_simp
  have 4: "1 \<noteq> data_m ex_bits_array" by code_simp
  have 5: "deref ex_bits_heap 1 = Inr \<lparr>bytes = [2], is_mutable = True\<rparr>" by code_simp
  have 6: "is_mutable \<lparr>bytes = [2], is_mutable = True\<rparr>" by simp
  have 7: "bit_in_range (bytes \<lparr>bytes = [2], is_mutable = True\<rparr>) 0" by code_simp
  have 8: "elem_in_range (type_m ex_bits_array) (bytes \<lparr>bytes = [5, 6], is_mutable = True\<rparr>)
        (offset_m ex_bits_array + 0)" by code_simp
  have f: "fits (type_m ex_bits_array) 7" by code_simp
  have r: "- (2 ^ 63) \<le> (7::int)" "(7::int) < 2 ^ 63" by simp_all
  have 9: "PyLong 7 = NA \<or> PyLong 7 = PyLong 7 \<and> fits (type_m ex_bits_array) 7
      \<and> - (2 ^ 63) \<le> (7::int) \<and> (7::int) < 2 ^ 63"
    using f r by simp
  from SetItem_value_observable [OF 1 2 3 4 5 6 7 8 9] 1 2 3 4 5 6 7 8 f r
  show ?thesis by blast
qed

lemma SetItem_keeps_data:
  assumes "SetItem h a i val = Inr (st, h', a')"
  shows "data_m a' = data_m a \<and> offset_m a' = offset_m a"
proof -
  obtain d where d: "deref h (data_m a) = Inr d"
    using assms by (cases "deref h (data_m a)") (auto simp: SetItem_def)
  show ?thesis
  proof (cases "is_mutable d")
    case False
    with assms d show ?thesis by (simp add: SetItem_def)
  next
    case md: True
    obtain vb where vb: "deref_opt h (valid_bits_m a) = Inr vb"
      using assms d md by (cases "deref_opt h (valid_bits_m a)") (auto simp: SetItem_def)
    then have some: "valid_bits_m a \<noteq> None" by (auto simp: deref_opt_def split: option.splits)
    show ?thesis
    proof (cases "is_mutable vb")
      case False
      with assms d md vb show ?thesis by (simp add: SetItem_def)
    next
      case True
      show ?thesis
      proof (cases "val = NA")
        case na: True
        with assms d md vb True some show ?thesis
          by (auto simp: SetItem_def and_then_Inr_iff)
      next
        case False
        obtain s c e where p: "PyObjectToInt64 val = (s, c, e)"
          by (cases "PyObjectToInt64 val") auto
        from assms d md vb True some False p show ?thesis
          by (auto simp: SetItem_def and_then_Inr_iff split: if_splits)
      qed
    qed
  qed
qed

text \<open>
  The outcome of \<open>SetItem\<close> does not depend on any use count: with the use count of a
  cell set to another value, it returns the same status and array and makes the same
  writes.
\<close>

lemma length_with_use_count [simp]: "length (with_use_count h p k) = length h"
  by (simp add: with_use_count_def)

lemma deref_with_use_count [simp]: "deref (with_use_count h p k) q = deref h q"
  by (auto simp: deref_def with_use_count_def nth_list_update)

lemma deref_opt_with_use_count [simp]: "deref_opt (with_use_count h p k) q = deref_opt h q"
  by (simp add: deref_opt_def split: option.splits)

lemma mutable_data_of_with_use_count [simp]:
  "mutable_data_of (with_use_count h p k) q = mutable_data_of h q"
  by (simp add: mutable_data_of_def)

lemma cell_updates_commute:
  "(c::cell)\<lparr>use_count := k, buf := b\<rparr> = c\<lparr>buf := b, use_count := k\<rparr>"
  by (cases c) simp

lemma store_with_use_count:
  "store (with_use_count h p k) q bs = with_use_count (store h q bs) p k"
proof (cases "p < length h")
  case True
  show ?thesis
  proof (cases "p = q")
    case True
    with \<open>p < length h\<close> show ?thesis
      by (simp add: store_def with_use_count_def cell_updates_commute)
  next
    case False
    with True show ?thesis
      by (simp add: store_def with_use_count_def list_update_swap)
  qed
next
  case False
  then show ?thesis by (simp add: store_def with_use_count_def)
qed

lemma alloc_with_use_count:
  "p < length h \<Longrightarrow>
   alloc (with_use_count h p k) b = (with_use_count (fst (alloc h b)) p k, snd (alloc h b))"
  by (simp add: alloc_def with_use_count_def list_update_append nth_append)

lemma mutable_data_set_with_use_count:
  "mutable_data_set (with_use_count h p k) a i v =
     and_then (mutable_data_set h a i v) (\<lambda>h'. Inr (with_use_count h' p k))"
proof (cases "mutable_data_of h (Some (data_m a))")
  case (Inl e)
  then show ?thesis by (simp add: mutable_data_set_def)
next
  case (Inr bs)
  then show ?thesis
    by (cases "write_elem (type_m a) bs (offset_m a + i) v")
      (simp_all add: mutable_data_set_def store_with_use_count)
qed

lemma SetItem_ignores_use_counts:
  "SetItem (with_use_count h p k) a i val =
     and_then (SetItem h a i val) (\<lambda>(st, h', a'). Inr (st, with_use_count h' p k, a'))"
proof (cases "deref h (data_m a)")
  case (Inl e)
  then show ?thesis by (simp add: SetItem_def)
next
  case d: (Inr d)
  show ?thesis
  proof (cases "is_mutable d")
    case False
    with d show ?thesis by (simp add: SetItem_def)
  next
    case md: True
    show ?thesis
    proof (cases "deref_opt h (valid_bits_m a)")
      case (Inl e)
      with d md show ?thesis by (simp add: SetItem_def)
    next
      case vb: (Inr vb)
      then obtain q where q: "valid_bits_m a = Some q"
        by (auto simp: deref_opt_def split: option.splits)
      show ?thesis
      proof (cases "is_mutable vb")
        case False
        with d md vb show ?thesis by (simp add: SetItem_def)
      next
        case mb: True
        from vb mb have bits: "mutable_data_of h (valid_bits_m a) = Inr (bytes vb)"
          by (simp add: mutable_data_of_def)
        show ?thesis
        proof (cases "val = NA")
          case True
          with d md vb mb q bits show ?thesis
            by (cases "ClearBit (bytes vb) i")
              (simp_all add: SetItem_def store_with_use_count)
        next
          case False
          obtain s c e where py: "PyObjectToInt64 val = (s, c, e)"
            by (cases "PyObjectToInt64 val") auto
          show ?thesis
          proof (cases "SetBit (bytes vb) i")
            case (Inl x)
            with d md vb mb q bits False show ?thesis by (simp add: SetItem_def)
          next
            case (Inr bits')
            show ?thesis
            proof (cases "s = OK")
              case False
              with d md vb mb q bits \<open>val \<noteq> NA\<close> py Inr show ?thesis
                by (simp add: SetItem_def store_with_use_count)
            next
              case True
              with d md vb mb q bits \<open>val \<noteq> NA\<close> py Inr show ?thesis
                by (cases "mutable_data_set (store h q bits') a i c")
                  (simp_all add: SetItem_def store_with_use_count
                    mutable_data_set_with_use_count)
            qed
          qed
        qed
      qed
    qed
  qed
qed

text \<open>
  Claim C6, as amended: \<open>SetItem\<close> fails with \<open>Invalid\<close>, changing nothing, whenever
  the data buffer is immutable, and whenever the bitmap buffer is immutable; it does not
  test whether a buffer is shared (its outcome is the same for every use count), and it
  never rebinds the array to another data buffer. When \<open>EnsureMutable\<close> succeeds on an
  array with a bitmap whose data buffer is shared, a following \<open>SetItem\<close> at an index of
  the array, with the null token or with an integer that \<open>long long\<close> holds and the
  element type holds, succeeds and \<open>GetItem\<close> gives that value.
\<close>

theorem SetItem_needs_mutable_buffers:
  "(deref h (data_m a) = Inr d \<and> \<not> is_mutable d \<longrightarrow>
      SetItem h a i val = Inr (Invalid ''Underlying buffer is immutable'', h, a))
   \<and> (deref h (data_m a) = Inr d \<and> is_mutable d \<and> deref_opt h (valid_bits_m a) = Inr bb
        \<and> \<not> is_mutable bb \<longrightarrow>
      SetItem h a i val = Inr (Invalid ''Valid bits buffer is immutable'', h, a))
   \<and> SetItem (with_use_count h p k) a i val
       = and_then (SetItem h a i val) (\<lambda>(st, h', a'). Inr (st, with_use_count h' p k, a'))
   \<and> (SetItem h a i val = Inr (st', h', a') \<longrightarrow>
        data_m a' = data_m a \<and> offset_m a' = offset_m a)
   \<and> (use_count_of h (data_m a) \<noteq> 1 \<and> valid_bits_m a \<noteq> None
        \<and> EnsureMutable h a = Inr (st, h1, a1)
        \<and> 0 \<le> i \<and> i < length_m a
        \<and> (val = NA \<or> val = PyLong n \<and> fits (type_m a) n \<and> - (2 ^ 63) \<le> n \<and> n < 2 ^ 63)
      \<longrightarrow>
      st = OK
      \<and> and_then (SetItem h1 a1 i val)
           (\<lambda>(st2, h2, a2). and_then (GetItem h2 a2 i) (\<lambda>v. Inr (st2, a2, v)))
         = Inr (OK, a1, val))"
proof (intro conjI impI)
  assume "deref h (data_m a) = Inr d \<and> \<not> is_mutable d"
  then show "SetItem h a i val = Inr (Invalid ''Underlying buffer is immutable'', h, a)"
    by (simp add: SetItem_def)
next
  assume "deref h (data_m a) = Inr d \<and> is_mutable d \<and> deref_opt h (valid_bits_m a) = Inr bb
        \<and> \<not> is_mutable bb"
  then show "SetItem h a i val = Inr (Invalid ''Valid bits buffer is immutable'', h, a)"
    by (simp add: SetItem_def)
next
  show "SetItem (with_use_count h p k) a i val
       = and_then (SetItem h a i val) (\<lambda>(st, h', a'). Inr (st, with_use_count h' p k, a'))"
    by (rule SetItem_ignores_use_counts)
next
  assume "SetItem h a i val = Inr (st', h', a')"
  then show "data_m a' = data_m a" "offset_m a' = offset_m a"
    by (simp_all add: SetItem_keeps_data)
next
  assume asm: "use_count_of h (data_m a) \<noteq> 1 \<and> valid_bits_m a \<noteq> None
        \<and> EnsureMutable h a = Inr (st, h1, a1)
        \<and> 0 \<le> i \<and> i < length_m a
        \<and> (val = NA \<or> val = PyLong n \<and> fits (type_m a) n \<and> - (2 ^ 63) \<le> n \<and> n < 2 ^ 63)"
  then obtain vb where vb: "valid_bits_m a = Some vb" by auto
  from asm have i: "0 \<le> i" "i < length_m a" by simp_all
  from asm have sh: "use_count_of h (data_m a) \<noteq> 1"
    and em: "EnsureMutable h a = Inr (st, h1, a1)" by simp_all
  note E = EnsureMutable_shared [OF sh vb em]
  from E have st: "st = OK" by (rule conjunct1)
  from E have a1: "a1 = a\<lparr>data_m := length h, offset_m := 0,
      valid_bits_m := Some (Suc (length h))\<rparr>" by blast
  from E obtain d' where d': "deref h1 (length h) = Inr d'" "is_mutable d'"
      "int (length (bytes d')) = length_m a * int (sizeof_c_type (type_m a))"
    by blast
  from E obtain bb' where bb': "deref h1 (Suc (length h)) = Inr bb'" "is_mutable bb'"
      "length (bytes bb') = nat ((length_m a + 7) div 8)"
    by blast
  show "st = OK" by (rule st)
  have bi: "bit_in_range (bytes bb') i"
    using i bb'(3) by (simp add: bit_in_range_def) linarith
  have "(i + 1) * int (sizeof_c_type (type_m a)) \<le> length_m a * int (sizeof_c_type (type_m a))"
    using i by (intro mult_right_mono) auto
  then have ei: "elem_in_range (type_m a1) (bytes d') (offset_m a1 + i)"
    using i d'(3) by (simp add: elem_in_range_def a1)
  have val: "val = NA \<or> (\<exists>n. val = PyLong n \<and> fits (type_m a1) n \<and> - (2 ^ 63) \<le> n \<and> n < 2 ^ 63)"
    using asm by (auto simp: a1)
  have p1: "deref h1 (data_m a1) = Inr d'" using d'(1) by (simp add: a1)
  have p2: "valid_bits_m a1 = Some (Suc (length h))" by (simp add: a1)
  have p3: "Suc (length h) \<noteq> data_m a1" by (simp add: a1)
  from SetItem_then_GetItem [OF p1 d'(2) p2 p3 bb'(1) bb'(2) bi ei val]
  obtain h2 where "SetItem h1 a1 i val = Inr (OK, h2, a1)" "GetItem h2 a1 i = Inr val"
    by blast
  then show "and_then (SetItem h1 a1 i val)
           (\<lambda>(st2, h2, a2). and_then (GetItem h2 a2 i) (\<lambda>v. Inr (st2, a2, v)))
         = Inr (OK, a1, val)"
    by simp
qed

lemma ex_w1: "deref ex_set_frozen_heap (data_m ex_set_array) = Inr \<lparr>bytes = [5, 6], is_mutable = False\<rparr>"
  by code_simp

lemma ex_w2: "use_count_of ex_set_frozen_heap (data_m ex_set_array) \<noteq> 1"
  by code_simp

lemma ex_w3: "valid_bits_m ex_set_array \<noteq> None"
  by code_simp

lemma ex_w4: "EnsureMutable ex_set_frozen_heap ex_set_array
    = Inr (OK, ex_set_detached_heap, ex_set_detached_array)"
  by code_simp

lemma ex_w5: "(0::int) < length_m ex_set_array"
  by code_simp

lemma ex_w6: "fits (type_m ex_set_array) 7"
  by code_simp

lemma ex_w7: "deref ex_set_frozen_bits_heap (data_m ex_set_array)
    = Inr \<lparr>bytes = [5, 6], is_mutable = True\<rparr>"
  by code_simp

lemma ex_w8: "deref_opt ex_set_frozen_bits_heap (valid_bits_m ex_set_array)
    = Inr \<lparr>bytes = [3], is_mutable = False\<rparr>"
  by code_simp

lemma ex_w9: "SetItem ex_set_shared_heap ex_set_array 0 (PyLong 7)
    = Inr (OK,
           [\<lparr>buf = \<lparr>bytes = [7, 6], is_mutable = True\<rparr>, use_count = 2\<rparr>,
            \<lparr>buf = \<lparr>bytes = [3], is_mutable = True\<rparr>, use_count = 1\<rparr>],
           ex_set_array)"
  by code_simp

theorem SetItem_needs_mutable_buffers_witness:
  "deref ex_set_frozen_heap (data_m ex_set_array) = Inr \<lparr>bytes = [5, 6], is_mutable = False\<rparr>
   \<and> \<not> is_mutable \<lparr>bytes = [5, 6], is_mutable = False\<rparr>
   \<and> SetItem ex_set_frozen_heap ex_set_array 0 (PyLong 7)
       = Inr (Invalid ''Underlying buffer is immutable'', ex_set_frozen_heap, ex_set_array)
   \<and> deref ex_set_frozen_bits_heap (data_m ex_set_array)
       = Inr \<lparr>bytes = [5, 6], is_mutable = True\<rparr>
   \<and> is_mutable \<lparr>bytes = [5, 6], is_mutable = True\<rparr>
   \<and> deref_opt ex_set_frozen_bits_heap (valid_bits_m ex_set_array)
       = Inr \<lparr>bytes = [3], is_mutable = False\<rparr>
   \<and> \<not> is_mutable \<lparr>bytes = [3], is_mutable = False\<rparr>
   \<and> SetItem ex_set_frozen_bits_heap ex_set_array 0 (PyLong 7)
       = Inr (Invalid ''Valid bits buffer is immutable'', ex_set_frozen_bits_heap, ex_set_array)
   \<and> SetItem (with_use_count ex_set_shared_heap 0 1) ex_set_array 0 (PyLong 7)
       = and_then (SetItem ex_set_shared_heap ex_set_array 0 (PyLong 7))
           (\<lambda>(st, h', a'). Inr (st, with_use_count h' 0 1, a'))
   \<and> SetItem ex_set_shared_heap ex_set_array 0 (PyLong 7)
       = Inr (OK,
              [\<lparr>buf = \<lparr>bytes = [7, 6], is_mutable = True\<rparr>, use_count = 2\<rparr>,
               \<lparr>buf = \<lparr>bytes = [3], is_mutable = True\<rparr>, use_count = 1\<rparr>],
              ex_set_array)
   \<and> data_m ex_set_array = data_m ex_set_array
   \<and> offset_m ex_set_array = offset_m ex_set_array
   \<and> use_count_of ex_set_frozen_heap (data_m ex_set_array) \<noteq> 1
   \<and> valid_bits_m ex_set_array \<noteq> None
   \<and> EnsureMutable ex_set_frozen_heap ex_set_array
       = Inr (OK, ex_set_detached_heap, ex_set_detached_array)
   \<and> (0::int) \<le> 0 \<and> (0::int) < length_m ex_set_array
   \<and> fits (type_m ex_set_array) 7 \<and> - (2 ^ 63) \<le> (7::int) \<and> (7::int) < 2 ^ 63
   \<and> and_then (SetItem ex_set_detached_heap ex_set_detached_array 0 (PyLong 7))
        (\<lambda>(st2, h2, a2). and_then (GetItem h2 a2 0) (\<lambda>v. Inr (st2, a2, v)))
       = Inr (OK, ex_set_detached_array, PyLong 7)"
proof -
  note A = SetItem_needs_mutable_buffers [where h = ex_set_frozen_heap and a = ex_set_array
      and d = "\<lparr>bytes = [5, 6], is_mutable = False\<rparr>" and i = 0 and val = "PyLong 7"
      and n = 7 and st = OK and ?h1.0 = ex_set_detached_heap
      and ?a1.0 = ex_set_detached_array]
  note B = SetItem_needs_mutable_buffers [where h = ex_set_shared_heap and a = ex_set_array
      and i = 0 and val = "PyLong 7" and p = 0 and k = 1 and st' = OK
      and h' = "[\<lparr>buf = \<lparr>bytes = [7, 6], is_mutable = True\<rparr>, use_count = 2\<rparr>,
               \<lparr>buf = \<lparr>bytes = [3], is_mutable = True\<rparr>, use_count = 1\<rparr>]"
      and a' = ex_set_array]
  note C = SetItem_needs_mutable_buffers [where h = ex_set_frozen_bits_heap
      and a = ex_set_array and d = "\<lparr>bytes = [5, 6], is_mutable = True\<rparr>"
      and bb = "\<lparr>bytes = [3], is_mutable = False\<rparr>" and i = 0 and val = "PyLong 7"]
  have m0: "\<not> is_mutable \<lparr>bytes = [5, 6], is_mutable = False\<rparr>" by simp
  have m1: "is_mutable \<lparr>bytes = [5, 6], is_mutable = True\<rparr>" by simp
  have m2: "\<not> is_mutable \<lparr>bytes = [3], is_mutable = False\<rparr>" by simp
  have le: "(0::int) \<le> 0" by simp
  have r: "- (2 ^ 63) \<le> (7::int)" "(7::int) < 2 ^ 63" by simp_all
  have v: "PyLong 7 = NA \<or> PyLong 7 = PyLong 7 \<and> fits (type_m ex_set_array) 7
      \<and> - (2 ^ 63) \<le> (7::int) \<and> (7::int) < 2 ^ 63"
    using ex_w6 r by simp
  have c1: "SetItem ex_set_frozen_heap ex_set_array 0 (PyLong 7)
       = Inr (Invalid ''Underlying buffer is immutable'', ex_set_frozen_heap, ex_set_array)"
    by (rule A [THEN conjunct1, rule_format]) (rule conjI [OF ex_w1 m0])
  have c2: "SetItem ex_set_frozen_bits_heap ex_set_array 0 (PyLong 7)
       = Inr (Invalid ''Valid bits buffer is immutable'', ex_set_frozen_bits_heap, ex_set_array)"
    by (rule C [THEN conjunct2, THEN conjunct1, rule_format]) (intro conjI ex_w7 m1 ex_w8 m2)
  have c3: "SetItem (with_use_count ex_set_shared_heap 0 1) ex_set_array 0 (PyLong 7)
       = and_then (SetItem ex_set_shared_heap ex_set_array 0 (PyLong 7))
           (\<lambda>(st, h', a'). Inr (st, with_use_count h' 0 1, a'))"
    by (rule B [THEN conjunct2, THEN conjunct2, THEN conjunct1])
  have c4: "data_m ex_set_array = data_m ex_set_array
      \<and> offset_m ex_set_array = offset_m ex_set_array"
    by (rule B [THEN conjunct2, THEN conjunct2, THEN conjunct2, THEN conjunct1, rule_format])
       (rule ex_w9)
  have c5: "OK = OK \<and> and_then (SetItem ex_set_detached_heap ex_set_detached_array 0 (PyLong 7))
        (\<lambda>(st2, h2, a2). and_then (GetItem h2 a2 0) (\<lambda>v. Inr (st2, a2, v)))
       = Inr (OK, ex_set_detached_array, PyLong 7)"
    by (rule A [THEN conjunct2, THEN conjunct2, THEN conjunct2, THEN conjunct2, rule_format])
       (intro conjI ex_w2 ex_w3 ex_w4 ex_w5 le v)
  from m0 m1 m2 le r ex_w1 ex_w2 ex_w3 ex_w4 ex_w5 ex_w6 ex_w7 ex_w8 ex_w9 c1 c2 c3 c4 c5
  show ?thesis by blast
qed

text \<open>
  Claim C6 as stated fails on both counts.
  \<open>SetItem\<close> tests whether the data buffer is mutable, not whether it is shared: on a
  mutable buffer with two owners it succeeds and writes into the shared bytes. And
  \<open>EnsureMutable\<close> changes nothing for an immutable buffer with one owner, so the same
  \<open>SetItem\<close> fails after it as before.
\<close>

theorem SetItem_shared_and_immutable_examples:
  "use_count_of ex_set_shared_heap (data_m ex_set_array) = 2
   \<and> SetItem ex_set_shared_heap ex_set_array 0 (PyLong 7)
       = Inr (OK,
              [\<lparr>buf = \<lparr>bytes = [7, 6], is_mutable = True\<rparr>, use_count = 2\<rparr>,
               \<lparr>buf = \<lparr>bytes = [3], is_mutable = True\<rparr>, use_count = 1\<rparr>],
              ex_set_array)
   \<and> EnsureMutable ex_set_immutable_heap ex_set_array
       = Inr (OK, ex_set_immutable_heap, ex_set_array)
   \<and> SetItem ex_set_immutable_heap ex_set_array 0 (PyLong 7)
       = Inr (Invalid ''Underlying buffer is immutable'', ex_set_immutable_heap, ex_set_array)"
  by code_simp

section \<open>Slicing a view\<close>

text \<open>
  Claim C9, as amended: \<open>v.Slice(k)\<close> is a view of the same Array with offset \<open>o + k\<close>
  and length \<open>L - k\<close>; \<open>v.Slice(k, m)\<close> has offset \<open>o + k\<close> and length \<open>m\<close>; offsets
  add up along a chain of slices. For the view of length 8, \<open>v.Slice(3).Slice(1, 2)\<close> has
  offset 4 and length 2, and \<open>v.Slice(2, 4).Slice(1, 2)\<close> has offset 3 and length 2.
\<close>

theorem Slice_offsets:
  "snd (Slice rc v k None)
     = \<lparr>view_data = view_data v, view_offset = view_offset v + k, view_length = view_length v - k\<rparr>
   \<and> snd (Slice rc v k (Some m))
     = \<lparr>view_data = view_data v, view_offset = view_offset v + k, view_length = m\<rparr>
   \<and> view_offset (snd (Slice rc' (snd (Slice rc v k len)) k' len')) = view_offset v + k + k'
   \<and> view_data (snd (Slice rc' (snd (Slice rc v k len)) k' len')) = view_data v
   \<and> snd (Slice rc' (snd (Slice ex_counts ex_view 3 None)) 1 (Some 2))
     = \<lparr>view_data = 0, view_offset = 4, view_length = 2\<rparr>
   \<and> snd (Slice rc' (snd (Slice ex_counts ex_view 2 (Some 4))) 1 (Some 2))
     = \<lparr>view_data = 0, view_offset = 3, view_length = 2\<rparr>"
  by (simp add: Slice_def ex_view_def ArrayView_new_def)

text \<open>
  Claim C9 as stated fails in its example: it has \<open>v.Slice(2, 4).Slice(1, 2)\<close> at
  offset 4.
\<close>

theorem Slice_of_Slice_2_4_has_offset_3:
  "view_offset (snd (Slice (fst (Slice ex_counts ex_view 2 (Some 4)))
                       (snd (Slice ex_counts ex_view 2 (Some 4))) 1 (Some 2))) = 3
   \<and> view_offset (snd (Slice (fst (Slice ex_counts ex_view 2 (Some 4)))
                       (snd (Slice ex_counts ex_view 2 (Some 4))) 1 (Some 2))) \<noteq> 4"
  by (simp add: Slice_def ex_view_def ArrayView_new_def)

end
